theory Spec2Isabelle
  imports Complex_Main "HOL-Library.Multiset"
begin

section \<open>Errors and numeric helpers\<close>

text \<open>
  The exceptions that the modelled part of \<^verbatim>\<open>base_model.py\<close> can raise. Every raise of
  the source is a branch \<open>Inl e\<close> of the model; a normal return is \<open>Inr v\<close>.
\<close>

datatype error = ValueError | KeyError | IndexError | ZeroDivisionError
  | UnboundLocalError | AttributeError

definition rbind :: "error + 'a \<Rightarrow> ('a \<Rightarrow> error + 'b) \<Rightarrow> error + 'b" where
  "rbind m f = (case m of Inl e \<Rightarrow> Inl e | Inr v \<Rightarrow> f v)"

text \<open>Python's \<^verbatim>\<open>d[k]\<close> on a dict: a missing key raises \<^verbatim>\<open>KeyError\<close>.\<close>

definition lookup :: "('k \<rightharpoonup> 'v) \<Rightarrow> 'k \<Rightarrow> error + 'v" where
  "lookup d k = (case d k of None \<Rightarrow> Inl KeyError | Some v \<Rightarrow> Inr v)"

text \<open>Python's \<^verbatim>\<open>dict(pairs)\<close>: pairs are inserted left to right, a later pair overwrites.\<close>

definition dict_of :: "('k \<times> 'v) list \<Rightarrow> ('k \<rightharpoonup> 'v)" where
  "dict_of kvs = foldl (\<lambda>d (k, v). d(k \<mapsto> v)) Map.empty kvs"

section \<open>Grouping by impression key\<close>

text \<open>
  \<^verbatim>\<open>group_labels(labels, preds, group_keys)\<close>, lines 281-312. Keys are impression indexes.
  \<^verbatim>\<open>list(set(group_keys))\<close> followed by \<^verbatim>\<open>sort()\<close> is the sorted list of the distinct
  keys, whatever order the set is listed in. The two dicts of buckets are maps; the loop
  over \<^verbatim>\<open>zip(labels, preds, group_keys)\<close> stops at the shortest of the three, as \<open>zip\<close> does.
\<close>

fun group_loop ::
  "(int \<rightharpoonup> 'l list) \<Rightarrow> (int \<rightharpoonup> 'p list) \<Rightarrow> ('l \<times> 'p \<times> int) list
     \<Rightarrow> error + ((int \<rightharpoonup> 'l list) \<times> (int \<rightharpoonup> 'p list))" where
  "group_loop gl gp [] = Inr (gl, gp)"
| "group_loop gl gp ((label, p, k) # rest) =
     (case gl k of
        None \<Rightarrow> Inl KeyError
      | Some ls \<Rightarrow>
          (case gp k of
             None \<Rightarrow> Inl KeyError
           | Some ps \<Rightarrow> group_loop (gl(k \<mapsto> ls @ [label])) (gp(k \<mapsto> ps @ [p])) rest))"

fun collect_groups ::
  "(int \<rightharpoonup> 'l list) \<Rightarrow> (int \<rightharpoonup> 'p list) \<Rightarrow> int list
     \<Rightarrow> error + ('l list list \<times> 'p list list)" where
  "collect_groups gl gp [] = Inr ([], [])"
| "collect_groups gl gp (k # ks) =
     (case gl k of
        None \<Rightarrow> Inl KeyError
      | Some ls \<Rightarrow>
          (case gp k of
             None \<Rightarrow> Inl KeyError
           | Some ps \<Rightarrow>
               (case collect_groups gl gp ks of
                  Inl e \<Rightarrow> Inl e
                | Inr (all_labels, all_preds) \<Rightarrow> Inr (ls # all_labels, ps # all_preds))))"

definition group_labels ::
  "'l list \<Rightarrow> 'p list \<Rightarrow> int list \<Rightarrow> error + (int list \<times> 'l list list \<times> 'p list list)" where
  "group_labels labels preds group_keys =
     (let all_keys = sort (remdups group_keys);
          gl0 = map_of (map (\<lambda>k. (k, [])) all_keys);
          gp0 = map_of (map (\<lambda>k. (k, [])) all_keys)
      in case group_loop gl0 gp0 (zip labels (zip preds group_keys)) of
           Inl e \<Rightarrow> Inl e
         | Inr (gl, gp) \<Rightarrow>
             (case collect_groups gl gp all_keys of
                Inl e \<Rightarrow> Inl e
              | Inr (all_labels, all_preds) \<Rightarrow> Inr (all_keys, all_labels, all_preds)))"

text \<open>The bucket of key \<open>k\<close>, as the specification words it: the entries of the input
  whose key is \<open>k\<close>, in the order of the input.\<close>

definition bucket :: "'a list \<Rightarrow> int list \<Rightarrow> int \<Rightarrow> 'a list" where
  "bucket xs keys k = map fst (filter (\<lambda>(x, k'). k' = k) (zip xs keys))"


text \<open>The entries of the zipped input whose key is \<open>k\<close>, in input order.\<close>

definition keyed :: "('l \<times> 'p \<times> int) list \<Rightarrow> int \<Rightarrow> ('l \<times> 'p \<times> int) list" where
  "keyed items k = filter (\<lambda>(l, p, k'). k' = k) items"

section \<open>Vectors and the two numpy operations of fast evaluation\<close>

text \<open>
  Scores, losses and metric values are floating-point numbers in the source; the model
  takes them as real numbers, so sums and products are exact. A vector is a list of
  reals. \<^verbatim>\<open>np.stack(rows, axis=0)\<close> raises \<^verbatim>\<open>ValueError\<close> on an empty list and on rows
  of different shapes; \<^verbatim>\<open>np.dot\<close> of a matrix and a vector raises \<^verbatim>\<open>ValueError\<close> when the
  row length is not the vector's length.
\<close>

type_synonym vec = "real list"

definition dot :: "vec \<Rightarrow> vec \<Rightarrow> real" where
  "dot a b = sum_list (map2 (*) a b)"

definition np_stack :: "vec list \<Rightarrow> error + vec list" where
  "np_stack rows =
     (if rows = [] then Inl ValueError
      else if \<exists>r \<in> set rows. length r \<noteq> length (hd rows) then Inl ValueError
      else Inr rows)"

definition np_dot :: "vec list \<Rightarrow> vec \<Rightarrow> error + real list" where
  "np_dot m u =
     (if \<exists>r \<in> set m. length r \<noteq> length u then Inl ValueError
      else Inr (map (\<lambda>r. dot r u) m))"

section \<open>The model object and its collaborators\<close>

text \<open>
  Batches are the dicts of arrays the iterators yield. A data batch holds what the
  abstract \<^verbatim>\<open>_get_input_label_from_iter\<close> extracts (the rows of the input and the
  flattened labels) and the flattened \<^verbatim>\<open>impression_index_batch\<close>. A news or user batch
  holds its flattened index array and the feature that \<^verbatim>\<open>_get_news_feature_from_iter\<close> or
  \<^verbatim>\<open>_get_user_feature_from_iter\<close> extracts. An impression record is the tuple
  (impression index, news indexes, user index, labels).
\<close>

record 'i data_batch =
  impression_index_batch :: "int list"
  batch_input :: "'i list"
  batch_label :: "real list"

record 'n news_batch =
  news_index_batch :: "int list"
  news_feature :: 'n

record 'u user_batch =
  impr_index_batch :: "int list"
  user_feature :: 'u

type_synonym impression = "int \<times> int list \<times> int \<times> real list"

record ('i, 'n, 'u) iterator =
  load_data_from_file :: "string \<Rightarrow> string \<Rightarrow> 'i data_batch list"
  load_news_from_file :: "string \<Rightarrow> 'n news_batch list"
  load_user_from_file :: "string \<Rightarrow> string \<Rightarrow> 'u user_batch list"
  load_impression_from_file :: "string \<Rightarrow> impression list"

text \<open>
  The Keras models, as functions of the weights \<open>'w\<close>: \<^verbatim>\<open>model.train_on_batch\<close> (which
  reads the optimizer's learning rate and returns the loss and the new weights),
  \<^verbatim>\<open>scorer.predict_on_batch\<close>, and the two encoders, which a model may lack
  (\<^verbatim>\<open>hasattr\<close> is tested in the source).
\<close>

record ('w, 'i, 'n, 'u) network =
  train_on_batch :: "real \<Rightarrow> 'w \<Rightarrow> 'i list \<Rightarrow> real list \<Rightarrow> real \<times> 'w"
  scorer_predict_on_batch :: "'w \<Rightarrow> 'i list \<Rightarrow> real list"
  newsencoder :: "('w \<Rightarrow> 'n \<Rightarrow> vec list) option"
  userencoder :: "('w \<Rightarrow> 'u \<Rightarrow> vec list) option"

text \<open>
  The hyperparameters the modelled code reads. The three flags that the source probes
  with \<^verbatim>\<open>hasattr\<close> are optional (\<open>None\<close>: the attribute is absent); the fields that
  an enabled feature reads are taken to be present.
\<close>

record hparams =
  epochs :: int
  show_step :: int
  learning_rate :: real
  metrics :: "string list"
  support_quick_scoring :: bool
  use_early_stopping :: "bool option"
  early_stopping_metric :: string
  early_stopping_patience :: int
  early_stopping_delta :: real
  early_stopping_start_from_epoch :: int
  use_fine_step :: "bool option"
  fine_step_from_epoch :: int
  fine_step_factor :: real
  deactivate_eval :: "bool option"

record ('w, 'i, 'n, 'u) base_model =
  hparams :: hparams
  net :: "('w, 'i, 'n, 'u) network"
  train_iterator :: "('i, 'n, 'u) iterator"
  test_iterator :: "('i, 'n, 'u) iterator"
  cal_metric :: "real list list \<Rightarrow> real list list \<Rightarrow> string list \<Rightarrow> (string \<times> real) list"

text \<open>
  What the code prints or shows, in order: the progress description of the training
  loop (step, running average loss, step loss), the per-epoch summary (epoch, average
  loss, evaluation result, test result) and the three messages of the stopping policy.
  The wall-clock times of the summary are not modelled.
\<close>

datatype event =
    Description int real real
  | EpochInfo int real "(string \<times> real) list option" "(string \<times> real) list option"
  | DecreasingLearningRate
  | GoingToFineTuning
  | StoppedEarly

text \<open>The mutable part of \<^verbatim>\<open>self\<close>.\<close>

record 'w model_state =
  weights :: 'w
  optimizer_learning_rate :: real
  current_epoch :: int
  last_eval_res :: "real list"
  news_vecs :: "int \<rightharpoonup> vec"
  user_vecs :: "int \<rightharpoonup> vec"
  saved_weights :: "(string \<times> 'w) option"
  printed :: "event list"

section \<open>Training and evaluation steps\<close>

definition train ::
  "('w, 'i, 'n, 'u) base_model \<Rightarrow> 'w model_state \<Rightarrow> 'i data_batch \<Rightarrow> real \<times> 'w model_state" where
  "train m st b =
     (let (rslt, w) = train_on_batch (net m) (optimizer_learning_rate st) (weights st)
                        (batch_input b) (batch_label b)
      in (rslt, st\<lparr>weights := w\<rparr>))"

text \<open>\<^verbatim>\<open>BaseModel.eval\<close>, lines 161-176.\<close>

definition eval_batch ::
  "('w, 'i, 'n, 'u) base_model \<Rightarrow> 'w model_state \<Rightarrow> 'i data_batch
     \<Rightarrow> real list \<times> real list \<times> int list" where
  "eval_batch m st b =
     (scorer_predict_on_batch (net m) (weights st) (batch_input b),
      batch_label b, impression_index_batch b)"

definition user ::
  "('w, 'i, 'n, 'u) base_model \<Rightarrow> 'w model_state \<Rightarrow> 'u user_batch
     \<Rightarrow> error + (int list \<times> vec list)" where
  "user m st b =
     (case userencoder (net m) of
        None \<Rightarrow> Inl AttributeError
      | Some enc \<Rightarrow> Inr (impr_index_batch b, enc (weights st) (user_feature b)))"

definition news ::
  "('w, 'i, 'n, 'u) base_model \<Rightarrow> 'w model_state \<Rightarrow> 'n news_batch
     \<Rightarrow> error + (int list \<times> vec list)" where
  "news m st b =
     (case newsencoder (net m) of
        None \<Rightarrow> Inl AttributeError
      | Some enc \<Rightarrow> Inr (news_index_batch b, enc (weights st) (news_feature b)))"

section \<open>The vector caches\<close>

fun run_user_loop ::
  "('w, 'i, 'n, 'u) base_model \<Rightarrow> 'w model_state \<Rightarrow> 'u user_batch list
     \<Rightarrow> int list \<Rightarrow> vec list \<Rightarrow> error + (int list \<times> vec list)" where
  "run_user_loop m st [] user_indexes user_vecs' = Inr (user_indexes, user_vecs')"
| "run_user_loop m st (b # bs) user_indexes user_vecs' =
     (case user m st b of
        Inl e \<Rightarrow> Inl e
      | Inr (user_index, user_vec) \<Rightarrow>
          run_user_loop m st bs (user_indexes @ user_index) (user_vecs' @ user_vec))"

definition run_user ::
  "('w, 'i, 'n, 'u) base_model \<Rightarrow> 'w model_state \<Rightarrow> string \<Rightarrow> string
     \<Rightarrow> error + (int \<rightharpoonup> vec)" where
  "run_user m st news_filename behaviors_file =
     (case userencoder (net m) of
        None \<Rightarrow> Inl ValueError
      | Some _ \<Rightarrow>
          (case run_user_loop m st
                  (load_user_from_file (test_iterator m) news_filename behaviors_file) [] [] of
             Inl e \<Rightarrow> Inl e
           | Inr (user_indexes, user_vecs') \<Rightarrow> Inr (dict_of (zip user_indexes user_vecs'))))"

fun run_news_loop ::
  "('w, 'i, 'n, 'u) base_model \<Rightarrow> 'w model_state \<Rightarrow> 'n news_batch list
     \<Rightarrow> int list \<Rightarrow> vec list \<Rightarrow> error + (int list \<times> vec list)" where
  "run_news_loop m st [] news_indexes news_vecs' = Inr (news_indexes, news_vecs')"
| "run_news_loop m st (b # bs) news_indexes news_vecs' =
     (case news m st b of
        Inl e \<Rightarrow> Inl e
      | Inr (news_index, news_vec) \<Rightarrow>
          run_news_loop m st bs (news_indexes @ news_index) (news_vecs' @ news_vec))"

definition run_news ::
  "('w, 'i, 'n, 'u) base_model \<Rightarrow> 'w model_state \<Rightarrow> string \<Rightarrow> error + (int \<rightharpoonup> vec)" where
  "run_news m st news_filename =
     (case newsencoder (net m) of
        None \<Rightarrow> Inl ValueError
      | Some _ \<Rightarrow>
          (case run_news_loop m st (load_news_from_file (test_iterator m) news_filename) [] [] of
             Inl e \<Rightarrow> Inl e
           | Inr (news_indexes, news_vecs') \<Rightarrow> Inr (dict_of (zip news_indexes news_vecs'))))"

section \<open>Slow and fast evaluation\<close>

fun run_slow_eval_loop ::
  "('w, 'i, 'n, 'u) base_model \<Rightarrow> 'w model_state \<Rightarrow> 'i data_batch list
     \<Rightarrow> real list \<Rightarrow> real list \<Rightarrow> int list \<Rightarrow> real list \<times> real list \<times> int list" where
  "run_slow_eval_loop m st [] preds labels imp_indexes = (preds, labels, imp_indexes)"
| "run_slow_eval_loop m st (b # bs) preds labels imp_indexes =
     (let (step_pred, step_labels, step_imp_index) = eval_batch m st b
      in run_slow_eval_loop m st bs
           (preds @ step_pred) (labels @ step_labels) (imp_indexes @ step_imp_index))"

definition run_slow_eval ::
  "('w, 'i, 'n, 'u) base_model \<Rightarrow> 'w model_state \<Rightarrow> string \<Rightarrow> string
     \<Rightarrow> error + (int list \<times> real list list \<times> real list list)" where
  "run_slow_eval m st news_filename behaviors_file =
     (let (preds, labels, imp_indexes) =
            run_slow_eval_loop m st
              (load_data_from_file (test_iterator m) news_filename behaviors_file) [] [] []
      in group_labels labels preds imp_indexes)"

text \<open>The list comprehension \<^verbatim>\<open>[news_vecs[i] for i in news_index]\<close>.\<close>

fun lookup_all :: "(int \<rightharpoonup> vec) \<Rightarrow> int list \<Rightarrow> error + vec list" where
  "lookup_all d [] = Inr []"
| "lookup_all d (i # is) =
     (case lookup d i of
        Inl e \<Rightarrow> Inl e
      | Inr v \<Rightarrow> (case lookup_all d is of Inl e \<Rightarrow> Inl e | Inr vs \<Rightarrow> Inr (v # vs)))"

text \<open>The prediction of one impression, lines 414-417: the first argument of
  \<^verbatim>\<open>np.dot\<close> is evaluated before the second.\<close>

definition fast_pred ::
  "(int \<rightharpoonup> vec) \<Rightarrow> (int \<rightharpoonup> vec) \<Rightarrow> int \<Rightarrow> int list \<Rightarrow> error + real list" where
  "fast_pred nv uv impr_index news_index =
     rbind (lookup_all nv news_index) (\<lambda>rows.
     rbind (np_stack rows) (\<lambda>stacked.
     rbind (lookup uv impr_index) (\<lambda>u.
       np_dot stacked u)))"

fun run_fast_eval_loop ::
  "(int \<rightharpoonup> vec) \<Rightarrow> (int \<rightharpoonup> vec) \<Rightarrow> impression list
     \<Rightarrow> int list \<Rightarrow> real list list \<Rightarrow> real list list
     \<Rightarrow> error + (int list \<times> real list list \<times> real list list)" where
  "run_fast_eval_loop nv uv [] group_impr_indexes group_labels' group_preds =
     Inr (group_impr_indexes, group_labels', group_preds)"
| "run_fast_eval_loop nv uv ((impr_index, news_index, user_index, label) # rest)
       group_impr_indexes group_labels' group_preds =
     (case fast_pred nv uv impr_index news_index of
        Inl e \<Rightarrow> Inl e
      | Inr pred \<Rightarrow>
          run_fast_eval_loop nv uv rest
            (group_impr_indexes @ [impr_index]) (group_labels' @ [label]) (group_preds @ [pred]))"

definition run_fast_eval ::
  "('w, 'i, 'n, 'u) base_model \<Rightarrow> 'w model_state \<Rightarrow> string \<Rightarrow> string
     \<Rightarrow> error + ((int list \<times> real list list \<times> real list list) \<times> 'w model_state)" where
  "run_fast_eval m st news_filename behaviors_file =
     rbind (run_news m st news_filename) (\<lambda>nv.
     rbind (run_user m st news_filename behaviors_file) (\<lambda>uv.
     rbind (run_fast_eval_loop nv uv
              (load_impression_from_file (test_iterator m) behaviors_file) [] [] [])
       (\<lambda>groups. Inr (groups, st\<lparr>news_vecs := nv, user_vecs := uv\<rparr>))))"

definition run_eval ::
  "('w, 'i, 'n, 'u) base_model \<Rightarrow> 'w model_state \<Rightarrow> string \<Rightarrow> string
     \<Rightarrow> error + ((string \<times> real) list \<times> 'w model_state)" where
  "run_eval m st news_filename behaviors_file =
     (if support_quick_scoring (hparams m) then
        rbind (run_fast_eval m st news_filename behaviors_file)
          (\<lambda>((_, group_labels', group_preds), st').
             Inr (cal_metric m group_labels' group_preds (metrics (hparams m)), st'))
      else
        rbind (run_slow_eval m st news_filename behaviors_file)
          (\<lambda>(_, group_labels', group_preds).
             Inr (cal_metric m group_labels' group_preds (metrics (hparams m)), st)))"

section \<open>The training loop\<close>

text \<open>
  The inner loop over the training batches, the same text in \<^verbatim>\<open>fit\<close> (lines 211-223)
  and \<^verbatim>\<open>custom_fit\<close> (lines 461-473). \<^verbatim>\<open>step % show_step\<close> raises
  \<^verbatim>\<open>ZeroDivisionError\<close> when \<^verbatim>\<open>show_step\<close> is 0; Python's \<^verbatim>\<open>%\<close> on ints is
  \<open>mod\<close> on \<open>int\<close>.
\<close>

fun train_loop ::
  "('w, 'i, 'n, 'u) base_model \<Rightarrow> 'i data_batch list \<Rightarrow> int \<Rightarrow> real \<Rightarrow> 'w model_state
     \<Rightarrow> error + (int \<times> real \<times> 'w model_state)" where
  "train_loop m [] step epoch_loss st = Inr (step, epoch_loss, st)"
| "train_loop m (batch_data_input # rest) step epoch_loss st =
     (let (step_data_loss, st1) = train m st batch_data_input;
          epoch_loss' = epoch_loss + step_data_loss;
          step' = step + 1
      in if show_step (hparams m) = 0 then Inl ZeroDivisionError
         else train_loop m rest step' epoch_loss'
                (if step' mod show_step (hparams m) = 0
                 then st1\<lparr>printed := printed st1 @
                        [Description step' (epoch_loss' / of_int step') step_data_loss]\<rparr>
                 else st1))"

text \<open>\<^verbatim>\<open>epoch_loss / step\<close>: with no batch both are the int 0 and the division raises.\<close>

definition epoch_average :: "real \<Rightarrow> int \<Rightarrow> error + real" where
  "epoch_average epoch_loss step =
     (if step = 0 then Inl ZeroDivisionError else Inr (epoch_loss / of_int step))"

text \<open>The evaluation on the test files, run when \<^verbatim>\<open>test_news_file\<close> is not \<^verbatim>\<open>None\<close>;
  the pair holds \<^verbatim>\<open>test_news_file\<close> and \<^verbatim>\<open>test_behaviors_file\<close>.\<close>

definition run_test_eval ::
  "('w, 'i, 'n, 'u) base_model \<Rightarrow> 'w model_state \<Rightarrow> (string \<times> string) option
     \<Rightarrow> error + ((string \<times> real) list option \<times> 'w model_state)" where
  "run_test_eval m st test_files =
     (case test_files of
        None \<Rightarrow> Inr (None, st)
      | Some (test_news_file, test_behaviors_file) \<Rightarrow>
          rbind (run_eval m st test_news_file test_behaviors_file)
            (\<lambda>(test_res, st'). Inr (Some test_res, st')))"




section \<open>Training with early stopping and fine stepping\<close>

text \<open>An iteration of the epoch loop of \<^verbatim>\<open>custom_fit\<close> either falls through to the next
  epoch or executes \<^verbatim>\<open>return self\<close>.\<close>

datatype 'a flow = Continue 'a | Return 'a

text \<open>The unconditional fine step at the head of the epoch, lines 444-447.\<close>

definition fine_step :: "hparams \<Rightarrow> int \<Rightarrow> 'w model_state \<Rightarrow> 'w model_state" where
  "fine_step hp epoch st =
     (if use_fine_step hp = Some True \<and> epoch = fine_step_from_epoch hp
      then st\<lparr>printed := printed st @ [DecreasingLearningRate],
              optimizer_learning_rate := learning_rate hp * fine_step_factor hp\<rparr>
      else st)"

text \<open>The update of the deque, lines 553-555. \<^verbatim>\<open>popleft\<close> on an empty deque raises
  \<^verbatim>\<open>IndexError\<close>.\<close>

definition update_history :: "hparams \<Rightarrow> real \<Rightarrow> 'w model_state \<Rightarrow> error + 'w model_state" where
  "update_history hp eval_early_stopping st =
     (if int (length (last_eval_res st)) \<ge> early_stopping_patience hp
      then (case last_eval_res st of
              [] \<Rightarrow> Inl IndexError
            | oldest # remaining \<Rightarrow>
                Inr (st\<lparr>last_eval_res := remaining @ [eval_early_stopping]\<rparr>))
      else Inr (st\<lparr>last_eval_res := last_eval_res st @ [eval_early_stopping]\<rparr>))"

text \<open>The guard of line 541. \<^verbatim>\<open>and\<close> evaluates its right operand only when the left
  one holds; \<^verbatim>\<open>min\<close> of an empty deque raises \<^verbatim>\<open>ValueError\<close>.\<close>

definition plateau :: "hparams \<Rightarrow> int \<Rightarrow> real \<Rightarrow> real list \<Rightarrow> error + bool" where
  "plateau hp epoch eval_early_stopping history =
     (if epoch \<ge> early_stopping_start_from_epoch hp
      then (if history = [] then Inl ValueError
            else Inr (eval_early_stopping < min_list history + early_stopping_delta hp))
      else Inr False)"

text \<open>
  The early stopping callback, lines 538-555. \<^verbatim>\<open>eval_res\<close> is the local variable of
  \<^verbatim>\<open>custom_fit\<close>: it is unbound (\<open>None\<close>) when evaluation is deactivated, and reading it
  raises \<^verbatim>\<open>UnboundLocalError\<close>; the metric result is a dict, read with \<open>lookup\<close>.
\<close>

definition early_stopping ::
  "hparams \<Rightarrow> int \<Rightarrow> (string \<times> real) list option \<Rightarrow> 'w model_state
     \<Rightarrow> error + 'w model_state flow" where
  "early_stopping hp epoch eval_res st =
     (if use_early_stopping hp = Some True then
        rbind (case eval_res of
                 None \<Rightarrow> Inl UnboundLocalError
               | Some res \<Rightarrow> lookup (map_of res) (early_stopping_metric hp))
          (\<lambda>eval_early_stopping.
        rbind (plateau hp epoch eval_early_stopping (last_eval_res st)) (\<lambda>stop.
          if stop then
            (if use_fine_step hp = Some True then
               (if epoch \<ge> fine_step_from_epoch hp
                then Inr (Return (st\<lparr>printed := printed st @ [StoppedEarly]\<rparr>))
                else rbind (update_history hp eval_early_stopping
                              (st\<lparr>printed := printed st @ [GoingToFineTuning],
                                  optimizer_learning_rate :=
                                    learning_rate hp * fine_step_factor hp\<rparr>))
                       (\<lambda>st'. Inr (Continue st')))
             else Inr (Return (st\<lparr>printed := printed st @ [StoppedEarly]\<rparr>)))
          else rbind (update_history hp eval_early_stopping st) (\<lambda>st'. Inr (Continue st'))))
      else Inr (Continue st))"

text \<open>The evaluation on the validation files in \<^verbatim>\<open>custom_fit\<close>, lines 488-497. It
  yields the local variable \<^verbatim>\<open>eval_res\<close>, which stays unbound (\<open>None\<close>) when evaluation
  is deactivated.\<close>

definition valid_eval ::
  "('w, 'i, 'n, 'u) base_model \<Rightarrow> 'w model_state \<Rightarrow> string \<Rightarrow> string
     \<Rightarrow> error + ((string \<times> real) list option \<times> 'w model_state)" where
  "valid_eval m st valid_news_file valid_behaviors_file =
     (if deactivate_eval (hparams m) = Some True then Inr (None, st)
      else rbind (run_eval m st valid_news_file valid_behaviors_file)
             (\<lambda>(eval_res, st'). Inr (Some eval_res, st')))"

text \<open>The summary of the epoch and the checkpoint, lines 509-535.\<close>

definition summary_and_checkpoint ::
  "string option \<Rightarrow> int \<Rightarrow> real \<Rightarrow> (string \<times> real) list option
     \<Rightarrow> (string \<times> real) list option \<Rightarrow> 'w model_state \<Rightarrow> 'w model_state" where
  "summary_and_checkpoint checkpoint_path epoch avg eval_res test_res st =
     (let st' = st\<lparr>printed := printed st @ [EpochInfo epoch avg eval_res test_res]\<rparr>
      in case checkpoint_path of
           None \<Rightarrow> st'
         | Some path \<Rightarrow> st'\<lparr>saved_weights := Some (path, weights st')\<rparr>)"

text \<open>An iteration of the epoch loop of \<^verbatim>\<open>custom_fit\<close> up to the checkpoint, lines
  443-535: fine step, training pass, average loss, evaluations, summary, checkpoint.\<close>

definition custom_fit_train_eval ::
  "('w, 'i, 'n, 'u) base_model \<Rightarrow> string \<Rightarrow> string \<Rightarrow> string \<Rightarrow> string
     \<Rightarrow> (string \<times> string) option \<Rightarrow> string option \<Rightarrow> int \<Rightarrow> 'w model_state
     \<Rightarrow> error + ((string \<times> real) list option \<times> 'w model_state)" where
  "custom_fit_train_eval m train_news_file train_behaviors_file valid_news_file
       valid_behaviors_file test_files checkpoint_path epoch st =
     rbind (train_loop m
              (load_data_from_file (train_iterator m) train_news_file train_behaviors_file)
              0 0 ((fine_step (hparams m) epoch st)\<lparr>current_epoch := epoch\<rparr>))
       (\<lambda>(step, epoch_loss, st1).
     rbind (epoch_average epoch_loss step) (\<lambda>avg.
     rbind (valid_eval m st1 valid_news_file valid_behaviors_file) (\<lambda>(eval_res, st2).
     rbind (run_test_eval m st2 test_files) (\<lambda>(test_res, st3).
       Inr (eval_res,
            summary_and_checkpoint checkpoint_path epoch avg eval_res test_res st3)))))"

text \<open>One iteration of the epoch loop of \<^verbatim>\<open>custom_fit\<close>, lines 443-555.\<close>

definition custom_fit_epoch ::
  "('w, 'i, 'n, 'u) base_model \<Rightarrow> string \<Rightarrow> string \<Rightarrow> string \<Rightarrow> string
     \<Rightarrow> (string \<times> string) option \<Rightarrow> string option \<Rightarrow> int \<Rightarrow> 'w model_state
     \<Rightarrow> error + 'w model_state flow" where
  "custom_fit_epoch m train_news_file train_behaviors_file valid_news_file valid_behaviors_file
       test_files checkpoint_path epoch st =
     rbind (custom_fit_train_eval m train_news_file train_behaviors_file valid_news_file
              valid_behaviors_file test_files checkpoint_path epoch st)
       (\<lambda>(eval_res, st'). early_stopping (hparams m) epoch eval_res st')"

fun custom_fit_loop ::
  "('w, 'i, 'n, 'u) base_model \<Rightarrow> string \<Rightarrow> string \<Rightarrow> string \<Rightarrow> string
     \<Rightarrow> (string \<times> string) option \<Rightarrow> string option \<Rightarrow> int list \<Rightarrow> 'w model_state
     \<Rightarrow> error + 'w model_state" where
  "custom_fit_loop m tn tb vn vb test_files checkpoint_path [] st = Inr st"
| "custom_fit_loop m tn tb vn vb test_files checkpoint_path (epoch # rest) st =
     (case custom_fit_epoch m tn tb vn vb test_files checkpoint_path epoch st of
        Inl e \<Rightarrow> Inl e
      | Inr (Return st') \<Rightarrow> Inr st'
      | Inr (Continue st') \<Rightarrow> custom_fit_loop m tn tb vn vb test_files checkpoint_path rest st')"

definition custom_fit ::
  "('w, 'i, 'n, 'u) base_model \<Rightarrow> string \<Rightarrow> string \<Rightarrow> string \<Rightarrow> string
     \<Rightarrow> (string \<times> string) option \<Rightarrow> string option \<Rightarrow> 'w model_state
     \<Rightarrow> error + 'w model_state" where
  "custom_fit m train_news_file train_behaviors_file valid_news_file valid_behaviors_file
       test_files checkpoint_path st =
     custom_fit_loop m train_news_file train_behaviors_file valid_news_file valid_behaviors_file
       test_files checkpoint_path [1 .. epochs (hparams m)]
       (if use_early_stopping (hparams m) = Some True then st\<lparr>last_eval_res := []\<rparr> else st)"

section \<open>Notions of the specification\<close>

text \<open>The (index, vector) pairs a news or user stream emits, in order: each batch pairs
  its indexes with the rows its encoder returns.\<close>

definition emitted_news ::
  "('w, 'i, 'n, 'u) base_model \<Rightarrow> 'w model_state \<Rightarrow> string \<Rightarrow> (int \<times> vec) list" where
  "emitted_news m st news_filename =
     concat (map (\<lambda>b. zip (news_index_batch b)
                        (the (newsencoder (net m)) (weights st) (news_feature b)))
               (load_news_from_file (test_iterator m) news_filename))"

definition emitted_user ::
  "('w, 'i, 'n, 'u) base_model \<Rightarrow> 'w model_state \<Rightarrow> string \<Rightarrow> string \<Rightarrow> (int \<times> vec) list" where
  "emitted_user m st news_filename behaviors_file =
     concat (map (\<lambda>b. zip (impr_index_batch b)
                        (the (userencoder (net m)) (weights st) (user_feature b)))
               (load_user_from_file (test_iterator m) news_filename behaviors_file))"

text \<open>The last vector emitted for an index, if any.\<close>

definition last_emitted :: "(int \<times> vec) list \<Rightarrow> int \<Rightarrow> vec option" where
  "last_emitted pairs k =
     (let for_k = filter (\<lambda>(i, v). i = k) pairs
      in if for_k = [] then None else Some (snd (last for_k)))"

text \<open>A stream is aligned when every batch has as many indexes as encoded vectors.\<close>

definition aligned_news ::
  "('w, 'i, 'n, 'u) base_model \<Rightarrow> 'w model_state \<Rightarrow> string \<Rightarrow> bool" where
  "aligned_news m st news_filename =
     (\<forall>b \<in> set (load_news_from_file (test_iterator m) news_filename).
        length (news_index_batch b) =
        length (the (newsencoder (net m)) (weights st) (news_feature b)))"

definition aligned_user ::
  "('w, 'i, 'n, 'u) base_model \<Rightarrow> 'w model_state \<Rightarrow> string \<Rightarrow> string \<Rightarrow> bool" where
  "aligned_user m st news_filename behaviors_file =
     (\<forall>b \<in> set (load_user_from_file (test_iterator m) news_filename behaviors_file).
        length (impr_index_batch b) =
        length (the (userencoder (net m)) (weights st) (user_feature b)))"

text \<open>An impression can be scored from the caches when it has a candidate, every
  candidate and the impression itself are cached, and the cached vectors have the
  dimension of the user vector.\<close>

definition scorable :: "(int \<rightharpoonup> vec) \<Rightarrow> (int \<rightharpoonup> vec) \<Rightarrow> impression \<Rightarrow> bool" where
  "scorable nv uv imp =
     (case imp of (impr_index, news_index, user_index, label) \<Rightarrow>
        news_index \<noteq> [] \<and>
        (case uv impr_index of
           None \<Rightarrow> False
         | Some u \<Rightarrow>
             (\<forall>i \<in> set news_index.
                case nv i of None \<Rightarrow> False | Some v \<Rightarrow> length v = length u)))"

definition dot_pred :: "(int \<rightharpoonup> vec) \<Rightarrow> (int \<rightharpoonup> vec) \<Rightarrow> impression \<Rightarrow> real list" where
  "dot_pred nv uv imp =
     (case imp of (impr_index, news_index, user_index, label) \<Rightarrow>
        map (\<lambda>i. dot (the (nv i)) (the (uv impr_index))) news_index)"

definition impr_key :: "impression \<Rightarrow> int" where
  "impr_key imp = (case imp of (impr_index, news_index, user_index, label) \<Rightarrow> impr_index)"

definition impr_label :: "impression \<Rightarrow> real list" where
  "impr_label imp = (case imp of (impr_index, news_index, user_index, label) \<Rightarrow> label)"

text \<open>
  The end-to-end scenario of the specification: news 10 and 11 with vectors \<open>[1,0]\<close>
  and \<open>[0,1]\<close>, impression 0 with user vector \<open>[2,3]\<close> and candidates 10, 11 labelled
  1, 0. The features of a batch are the vectors themselves and the encoders return them;
  a row of the data stream is a (news vector, user vector) pair scored by their dot
  product.
\<close>

definition scenario_iterator :: "(vec \<times> vec, vec list, vec list) iterator" where
  "scenario_iterator =
     \<lparr>load_data_from_file = (\<lambda>news_file behaviors_file.
         [\<lparr>impression_index_batch = [0, 0],
           batch_input = [([1, 0], [2, 3]), ([0, 1], [2, 3])],
           batch_label = [1, 0]\<rparr>]),
      load_news_from_file = (\<lambda>news_file.
         [\<lparr>news_index_batch = [10, 11], news_feature = [[1, 0], [0, 1]]\<rparr>]),
      load_user_from_file = (\<lambda>news_file behaviors_file.
         [\<lparr>impr_index_batch = [0], user_feature = [[2, 3]]\<rparr>]),
      load_impression_from_file = (\<lambda>behaviors_file. [(0, [10, 11], 0, [1, 0])])\<rparr>"

definition scenario_network :: "(nat, vec \<times> vec, vec list, vec list) network" where
  "scenario_network =
     \<lparr>train_on_batch = (\<lambda>lr w inputs labels. (sum_list labels, Suc w)),
      scorer_predict_on_batch = (\<lambda>w inputs. map (\<lambda>(a, b). dot a b) inputs),
      newsencoder = Some (\<lambda>w feature. feature),
      userencoder = Some (\<lambda>w feature. feature)\<rparr>"

definition scenario_hparams :: hparams where
  "scenario_hparams =
     \<lparr>epochs = 1, show_step = 2, learning_rate = 1, metrics = [''group_auc''],
      support_quick_scoring = True, use_early_stopping = None,
      early_stopping_metric = ''group_auc'', early_stopping_patience = 1,
      early_stopping_delta = 0, early_stopping_start_from_epoch = 2,
      use_fine_step = None, fine_step_from_epoch = 2, fine_step_factor = 1 / 10,
      deactivate_eval = None\<rparr>"

text \<open>The scenario's stand-in for the metric library: per metric name, the number of
  groups plus the sum of the predictions at positive labels.\<close>

definition scenario_metric ::
  "real list list \<Rightarrow> real list list \<Rightarrow> string list \<Rightarrow> (string \<times> real) list" where
  "scenario_metric group_labels' group_preds names =
     map (\<lambda>name. (name, of_nat (length group_labels') +
                    sum_list (map2 (\<lambda>ls ps. sum_list (map2 (*) ls ps)) group_labels' group_preds)))
       names"

definition scenario_model :: "(nat, vec \<times> vec, vec list, vec list) base_model" where
  "scenario_model =
     \<lparr>hparams = scenario_hparams, net = scenario_network,
      train_iterator = scenario_iterator, test_iterator = scenario_iterator,
      cal_metric = scenario_metric\<rparr>"

definition scenario_state :: "nat model_state" where
  "scenario_state =
     \<lparr>weights = 0, optimizer_learning_rate = 1, current_epoch = 0, last_eval_res = [],
      news_vecs = Map.empty, user_vecs = Map.empty, saved_weights = None, printed = []\<rparr>"

text \<open>A stream that emits an index twice with different vectors: news 7 in two
  batches, impression 3 twice in one batch.\<close>

definition duplicate_iterator :: "(vec \<times> vec, vec list, vec list) iterator" where
  "duplicate_iterator =
     \<lparr>load_data_from_file = (\<lambda>news_file behaviors_file. []),
      load_news_from_file = (\<lambda>news_file.
         [\<lparr>news_index_batch = [7], news_feature = [[1, 0]]\<rparr>,
          \<lparr>news_index_batch = [7], news_feature = [[0, 1]]\<rparr>]),
      load_user_from_file = (\<lambda>news_file behaviors_file.
         [\<lparr>impr_index_batch = [3, 3], user_feature = [[5], [6]]\<rparr>]),
      load_impression_from_file = (\<lambda>behaviors_file. [])\<rparr>"

definition duplicate_model :: "(nat, vec \<times> vec, vec list, vec list) base_model" where
  "duplicate_model = scenario_model\<lparr>test_iterator := duplicate_iterator\<rparr>"

text \<open>The state an iteration of the epoch loop leaves, whichever way it ends.\<close>

fun state_of :: "'a flow \<Rightarrow> 'a" where
  "state_of (Continue st) = st"
| "state_of (Return st) = st"

text \<open>The values of the monitored metric that the epoch summaries of an output report,
  in order.\<close>

fun reported :: "string \<Rightarrow> event \<Rightarrow> real list" where
  "reported metric (EpochInfo epoch avg (Some res) test_res) =
     (case map_of res metric of None \<Rightarrow> [] | Some v \<Rightarrow> [v])"
| "reported metric ev = []"

definition monitored :: "hparams \<Rightarrow> event list \<Rightarrow> real list" where
  "monitored hp out = concat (map (reported (early_stopping_metric hp)) out)"

text \<open>A fine step was fired in a stretch of output when one of its two messages was
  printed there.\<close>

definition fine_step_fired :: "event list \<Rightarrow> bool" where
  "fine_step_fired out = (DecreasingLearningRate \<in> set out \<or> GoingToFineTuning \<in> set out)"

text \<open>
  A model whose monitored metric rises at every epoch: a training step adds one to the
  weights and returns the sum of the batch labels as loss, the scorer predicts the
  weights, an epoch has one training batch, and the evaluation data is one impression
  with one candidate labelled 1. With \<open>scenario_metric\<close> the metric after epoch \<open>e\<close>
  is \<open>e + 1\<close>. The policy runs three epochs with patience 2; its delta, its start epoch
  and the fine-step flag are parameters.
\<close>

definition rising_iterator :: "(unit, vec list, vec list) iterator" where
  "rising_iterator =
     \<lparr>load_data_from_file = (\<lambda>news_file behaviors_file.
         [\<lparr>impression_index_batch = [0], batch_input = [()], batch_label = [1]\<rparr>]),
      load_news_from_file = (\<lambda>news_file. []),
      load_user_from_file = (\<lambda>news_file behaviors_file. []),
      load_impression_from_file = (\<lambda>behaviors_file. [])\<rparr>"

definition rising_network :: "(nat, unit, vec list, vec list) network" where
  "rising_network =
     \<lparr>train_on_batch = (\<lambda>lr w inputs labels. (sum_list labels, Suc w)),
      scorer_predict_on_batch = (\<lambda>w inputs. map (\<lambda>x. of_nat w) inputs),
      newsencoder = None,
      userencoder = None\<rparr>"

definition policy_hparams :: "real \<Rightarrow> int \<Rightarrow> bool option \<Rightarrow> hparams" where
  "policy_hparams delta start fine =
     \<lparr>epochs = 3, show_step = 2, learning_rate = 1, metrics = [''group_auc''],
      support_quick_scoring = False, use_early_stopping = Some True,
      early_stopping_metric = ''group_auc'', early_stopping_patience = 2,
      early_stopping_delta = delta, early_stopping_start_from_epoch = start,
      use_fine_step = fine, fine_step_from_epoch = 3, fine_step_factor = 1 / 10,
      deactivate_eval = None\<rparr>"

definition rising_model ::
  "real \<Rightarrow> int \<Rightarrow> bool option \<Rightarrow> (nat, unit, vec list, vec list) base_model" where
  "rising_model delta start fine =
     \<lparr>hparams = policy_hparams delta start fine, net = rising_network,
      train_iterator = rising_iterator, test_iterator = rising_iterator,
      cal_metric = scenario_metric\<rparr>"





text \<open>
  The same dataset seen by the two evaluations. The impression stream lists the
  impressions; the data stream lists, batch after batch, one row per impression and
  candidate: the input built from the candidate and the impression, the label of the
  candidate, and the impression index.
\<close>

definition impr_news :: "impression \<Rightarrow> int list" where
  "impr_news imp = (case imp of (impr_index, news_index, user_index, label) \<Rightarrow> news_index)"

definition rows_of :: "(int \<Rightarrow> int \<Rightarrow> 'i) \<Rightarrow> impression \<Rightarrow> ('i \<times> real \<times> int) list" where
  "rows_of feature imp =
     map (\<lambda>(n, l). (feature n (impr_key imp), l, impr_key imp))
       (zip (impr_news imp) (impr_label imp))"

definition pair_rows :: "(int \<Rightarrow> int \<Rightarrow> 'i) \<Rightarrow> impression list \<Rightarrow> ('i \<times> real \<times> int) list" where
  "pair_rows feature imps = concat (map (rows_of feature) imps)"

definition same_dataset ::
  "(int \<Rightarrow> int \<Rightarrow> 'i) \<Rightarrow> 'i data_batch list \<Rightarrow> impression list \<Rightarrow> bool" where
  "same_dataset feature bs imps =
     (concat (map batch_input bs) = map fst (pair_rows feature imps)
      \<and> concat (map batch_label bs) = map (fst \<circ> snd) (pair_rows feature imps)
      \<and> concat (map impression_index_batch bs) = map (snd \<circ> snd) (pair_rows feature imps))"

text \<open>A metric computation that depends on the groups only, not on their order.\<close>

definition order_invariant ::
  "(real list list \<Rightarrow> real list list \<Rightarrow> string list \<Rightarrow> (string \<times> real) list) \<Rightarrow> bool" where
  "order_invariant cal =
     (\<forall>ls ps ls' ps' names.
        length ls = length ps \<and> length ls' = length ps'
        \<and> mset (zip ls ps) = mset (zip ls' ps')
        \<longrightarrow> cal ls ps names = cal ls' ps' names)"

text \<open>The model with quick scoring switched on or off.\<close>

definition with_quick_scoring ::
  "bool \<Rightarrow> ('w, 'i, 'n, 'u) base_model \<Rightarrow> ('w, 'i, 'n, 'u) base_model" where
  "with_quick_scoring q m = m\<lparr>hparams := (hparams m)\<lparr>support_quick_scoring := q\<rparr>\<rparr>"

text \<open>A dataset of two impressions, with the rows of its data stream in two batches.\<close>

definition two_impression_iterator :: "(vec \<times> vec, vec list, vec list) iterator" where
  "two_impression_iterator =
     \<lparr>load_data_from_file = (\<lambda>news_file behaviors_file.
         [\<lparr>impression_index_batch = [0, 0],
           batch_input = [([1, 0], [2, 3]), ([0, 1], [2, 3])],
           batch_label = [1, 0]\<rparr>,
          \<lparr>impression_index_batch = [1],
           batch_input = [([0, 1], [4, 5])],
           batch_label = [1]\<rparr>]),
      load_news_from_file = (\<lambda>news_file.
         [\<lparr>news_index_batch = [10, 11], news_feature = [[1, 0], [0, 1]]\<rparr>]),
      load_user_from_file = (\<lambda>news_file behaviors_file.
         [\<lparr>impr_index_batch = [0, 1], user_feature = [[2, 3], [4, 5]]\<rparr>]),
      load_impression_from_file = (\<lambda>behaviors_file.
         [(0, [10, 11], 0, [1, 0]), (1, [11], 1, [1])])\<rparr>"

definition two_impression_model :: "(nat, vec \<times> vec, vec list, vec list) base_model" where
  "two_impression_model = scenario_model\<lparr>test_iterator := two_impression_iterator\<rparr>"

definition two_impression_feature :: "int \<Rightarrow> int \<Rightarrow> vec \<times> vec" where
  "two_impression_feature n i =
     (the (dict_of [(10, [1, 0]), (11, [0, 1])] n), the (dict_of [(0, [2, 3]), (1, [4, 5])] i))"

text \<open>
  Three variations of the dataset of two impressions. In the first an impression index
  is repeated: a third record carries index 0 again. In the second an impression has no
  candidate. In the third the impression stream is not in ascending index order. In each
  the data stream still lists one row per impression and candidate.
\<close>

definition repeated_key_iterator :: "(vec \<times> vec, vec list, vec list) iterator" where
  "repeated_key_iterator =
     two_impression_iterator
       \<lparr>load_data_from_file := (\<lambda>news_file behaviors_file.
          [\<lparr>impression_index_batch = [0, 0],
            batch_input = [([1, 0], [2, 3]), ([0, 1], [2, 3])],
            batch_label = [1, 0]\<rparr>,
           \<lparr>impression_index_batch = [1],
            batch_input = [([0, 1], [4, 5])],
            batch_label = [1]\<rparr>,
           \<lparr>impression_index_batch = [0],
            batch_input = [([0, 1], [2, 3])],
            batch_label = [0]\<rparr>]),
        load_impression_from_file := (\<lambda>behaviors_file.
          [(0, [10, 11], 0, [1, 0]), (1, [11], 1, [1]), (0, [11], 0, [0])])\<rparr>"

definition repeated_key_model :: "(nat, vec \<times> vec, vec list, vec list) base_model" where
  "repeated_key_model = scenario_model\<lparr>test_iterator := repeated_key_iterator\<rparr>"

definition no_candidate_iterator :: "(vec \<times> vec, vec list, vec list) iterator" where
  "no_candidate_iterator =
     two_impression_iterator
       \<lparr>load_data_from_file := (\<lambda>news_file behaviors_file.
          [\<lparr>impression_index_batch = [0],
            batch_input = [([1, 0], [2, 3])],
            batch_label = [1]\<rparr>]),
        load_impression_from_file := (\<lambda>behaviors_file.
          [(0, [10], 0, [1]), (1, [], 1, [])])\<rparr>"

definition no_candidate_model :: "(nat, vec \<times> vec, vec list, vec list) base_model" where
  "no_candidate_model = scenario_model\<lparr>test_iterator := no_candidate_iterator\<rparr>"

definition descending_iterator :: "(vec \<times> vec, vec list, vec list) iterator" where
  "descending_iterator =
     two_impression_iterator
       \<lparr>load_data_from_file := (\<lambda>news_file behaviors_file.
          [\<lparr>impression_index_batch = [1],
            batch_input = [([0, 1], [4, 5])],
            batch_label = [1]\<rparr>,
           \<lparr>impression_index_batch = [0, 0],
            batch_input = [([1, 0], [2, 3]), ([0, 1], [2, 3])],
            batch_label = [1, 0]\<rparr>]),
        load_impression_from_file := (\<lambda>behaviors_file.
          [(1, [11], 1, [1]), (0, [10, 11], 0, [1, 0])])\<rparr>"

text \<open>A metric computation that depends on the order of the groups: it reports the
  first prediction of the first group.\<close>

definition first_group_metric ::
  "real list list \<Rightarrow> real list list \<Rightarrow> string list \<Rightarrow> (string \<times> real) list" where
  "first_group_metric group_labels' group_preds names =
     map (\<lambda>name. (name, hd (hd group_preds))) names"

definition descending_model :: "(nat, vec \<times> vec, vec list, vec list) base_model" where
  "descending_model =
     scenario_model\<lparr>test_iterator := descending_iterator, cal_metric := first_group_metric\<rparr>"

text \<open>The scorer of a model is the dot product of the cached encoder outputs on a
  dataset: it scores every batch row by row, and the row of a candidate and an
  impression by the dot product of the two cached vectors.\<close>

definition dot_scorer ::
  "('w, 'i, 'n, 'u) base_model \<Rightarrow> 'w model_state \<Rightarrow> ('i \<Rightarrow> real) \<Rightarrow> (int \<Rightarrow> int \<Rightarrow> 'i)
     \<Rightarrow> (int \<rightharpoonup> vec) \<Rightarrow> (int \<rightharpoonup> vec) \<Rightarrow> 'i data_batch list \<Rightarrow> impression list \<Rightarrow> bool" where
  "dot_scorer m st score feature nv uv bs imps =
     (list_all (\<lambda>b. scorer_predict_on_batch (net m) (weights st) (batch_input b) =
                      map score (batch_input b)) bs
      \<and> list_all (\<lambda>imp. list_all (\<lambda>n. score (feature n (impr_key imp)) =
                                      dot (the (nv n)) (the (uv (impr_key imp))))
                            (impr_news imp)) imps)"

text \<open>A run in which a plateau is met twice before the fine-step epoch: the rising
  model with delta 3, start epoch 2 and fine stepping from epoch 5.\<close>

definition twice_tuned_model :: "(nat, unit, vec list, vec list) base_model" where
  "twice_tuned_model =
     (rising_model 3 2 (Some True))
       \<lparr>hparams := (policy_hparams 3 2 (Some True))\<lparr>fine_step_from_epoch := 5\<rparr>\<rparr>"

section \<open>Properties of grouping\<close>

lemma keyed_Nil [simp]: "keyed [] k = []"
  by (simp add: keyed_def)

lemma keyed_Cons [simp]:
  "keyed ((l, p, k') # items) k = (if k' = k then (l, p, k') # keyed items k else keyed items k)"
  by (simp add: keyed_def)

lemma group_loop_result:
  assumes "\<forall>(l, p, k) \<in> set items. k \<in> dom gl \<and> k \<in> dom gp"
  shows "group_loop gl gp items =
           Inr (\<lambda>k. map_option (\<lambda>ls. ls @ map fst (keyed items k)) (gl k),
                \<lambda>k. map_option (\<lambda>ps. ps @ map (fst \<circ> snd) (keyed items k)) (gp k))"
  using assms
proof (induction items arbitrary: gl gp)
  case Nil
  show ?case by (simp add: option.map_ident)
next
  case (Cons it items)
  obtain l p k where it: "it = (l, p, k)" by (cases it)
  from Cons.prems it obtain ls ps where g: "gl k = Some ls" "gp k = Some ps"
    by auto
  have dom': "\<forall>(l', p', k') \<in> set items. k' \<in> dom (gl(k \<mapsto> ls @ [l])) \<and> k' \<in> dom (gp(k \<mapsto> ps @ [p]))"
    using Cons.prems by auto
  have step: "group_loop gl gp (it # items) =
      group_loop (gl(k \<mapsto> ls @ [l])) (gp(k \<mapsto> ps @ [p])) items"
    by (simp add: it g)
  have l_eq: "(\<lambda>k'. map_option (\<lambda>xs. xs @ map fst (keyed items k')) ((gl(k \<mapsto> ls @ [l])) k')) =
      (\<lambda>k'. map_option (\<lambda>xs. xs @ map fst (keyed (it # items) k')) (gl k'))"
    by (rule ext) (simp add: it g)
  have p_eq: "(\<lambda>k'. map_option (\<lambda>xs. xs @ map (fst \<circ> snd) (keyed items k')) ((gp(k \<mapsto> ps @ [p])) k')) =
      (\<lambda>k'. map_option (\<lambda>xs. xs @ map (fst \<circ> snd) (keyed (it # items) k')) (gp k'))"
    by (rule ext) (simp add: it g)
  show ?case
    by (simp only: step Cons.IH [OF dom'] l_eq p_eq)
qed

lemma collect_groups_result:
  assumes "\<forall>k \<in> set ks. k \<in> dom gl \<and> k \<in> dom gp"
  shows "collect_groups gl gp ks = Inr (map (\<lambda>k. the (gl k)) ks, map (\<lambda>k. the (gp k)) ks)"
  using assms by (induction ks) auto

lemma keyed_zip3_labels:
  assumes "length labels = length preds" "length preds = length keys"
  shows "map fst (keyed (zip labels (zip preds keys)) k) = bucket labels keys k"
  using assms
  by (induction labels preds keys rule: list_induct3) (auto simp: bucket_def)

lemma keyed_zip3_preds:
  assumes "length labels = length preds" "length preds = length keys"
  shows "map (fst \<circ> snd) (keyed (zip labels (zip preds keys)) k) = bucket preds keys k"
  using assms
  by (induction labels preds keys rule: list_induct3) (auto simp: bucket_def)

lemma map_of_empty_buckets:
  "map_of (map (\<lambda>k. (k, [])) ks) k = (if k \<in> set ks then Some [] else None)"
  by (induction ks) auto

lemma group_labels_eq:
  assumes "length labels = length preds" "length preds = length group_keys"
  shows "group_labels labels preds group_keys =
           Inr (sort (remdups group_keys),
                map (bucket labels group_keys) (sort (remdups group_keys)),
                map (bucket preds group_keys) (sort (remdups group_keys)))"
proof -
  let ?ks = "sort (remdups group_keys)"
  let ?g0 = "\<lambda>k. if k \<in> set group_keys then Some [] else None"
  let ?items = "zip labels (zip preds group_keys)"
  have g0: "map_of (map (\<lambda>k. (k, [])) ?ks) = ?g0" for dummy :: 'x
    by (rule ext) (simp add: map_of_empty_buckets)
  have dom: "\<forall>(l, p, k) \<in> set ?items. k \<in> dom ?g0 \<and> k \<in> dom ?g0"
    by (auto simp: dom_def dest!: set_zip_rightD)
  have loop: "group_loop ?g0 ?g0 ?items =
      Inr (\<lambda>k. map_option (\<lambda>ls. ls @ map fst (keyed ?items k)) (?g0 k),
           \<lambda>k. map_option (\<lambda>ps. ps @ map (fst \<circ> snd) (keyed ?items k)) (?g0 k))"
    by (rule group_loop_result [OF dom])
  show ?thesis
    unfolding group_labels_def Let_def
    apply (simp only: map_of_empty_buckets [abs_def] set_sort set_remdups)
    apply (subst loop)
    apply (simp add: collect_groups_result dom_def keyed_zip3_labels [OF assms] keyed_zip3_preds [OF assms])
    done
qed


lemma mset_keyed_split:
  assumes "k \<notin> set ks"
  shows "mset (map f (keyed items k)) + mset (map f (filter (\<lambda>(l, p, k'). k' \<in> set ks) items)) =
         mset (map f (filter (\<lambda>(l, p, k'). k' \<in> set (k # ks)) items))"
  using assms by (induction items) (auto simp: keyed_def)

lemma mset_concat_keyed:
  assumes "distinct ks"
  shows "mset (concat (map (\<lambda>k. map f (keyed items k)) ks)) =
         mset (map f (filter (\<lambda>(l, p, k'). k' \<in> set ks) items))"
  using assms
proof (induction ks)
  case Nil
  show ?case by simp
next
  case (Cons k ks)
  then have "k \<notin> set ks" and "distinct ks" by simp_all
  then show ?case
    using Cons.IH mset_keyed_split [of k ks f items] by simp
qed

lemma mset_concat_keyed_all:
  assumes "distinct ks" and "\<forall>(l, p, k) \<in> set items. k \<in> set ks"
  shows "mset (concat (map (\<lambda>k. map f (keyed items k)) ks)) = mset (map f items)"
proof -
  have "filter (\<lambda>(l, p, k'). k' \<in> set ks) items = items"
    using assms(2) by (intro filter_True) auto
  then show ?thesis
    using mset_concat_keyed [OF assms(1), of f items] by simp
qed

lemma zip_buckets:
  assumes "length labels = length preds" "length preds = length keys"
  shows "zip (bucket labels keys k) (bucket preds keys k) =
         map (\<lambda>(l, p, k'). (l, p)) (keyed (zip labels (zip preds keys)) k)"
  using assms
  by (induction labels preds keys rule: list_induct3) (auto simp: bucket_def)

lemma sorted_keys: "sorted_wrt (<) (sort (remdups (ks :: int list)))"
  by (simp add: strict_sorted_iff)

text \<open>
  Claim C2. For parallel lists of equal length, \<open>group_labels\<close> returns without error;
  the key list is strictly ascending (so each key occurs once) and holds exactly the
  input keys; the label and prediction lists hold, per key in key order, the bucket of
  that key, that is the input entries with this key in input order; the bucket lengths
  sum to the input length; and the concatenation of the buckets in key order is a
  permutation of the input, labels and predictions staying paired.
\<close>

theorem group_labels_spec:
  assumes "length labels = length preds" and "length preds = length group_keys"
  shows "\<exists>ks ls ps. group_labels labels preds group_keys = Inr (ks, ls, ps)
           \<and> sorted_wrt (<) ks \<and> set ks = set group_keys
           \<and> ls = map (bucket labels group_keys) ks
           \<and> ps = map (bucket preds group_keys) ks
           \<and> sum_list (map length ls) = length labels
           \<and> sum_list (map length ps) = length preds
           \<and> mset (concat ls) = mset labels
           \<and> mset (concat ps) = mset preds
           \<and> mset (concat (map2 zip ls ps)) = mset (zip labels preds)"
proof -
  let ?ks = "sort (remdups group_keys)"
  let ?items = "zip labels (zip preds group_keys)"
  have d: "distinct ?ks" by simp
  have cover: "\<forall>(l, p, k) \<in> set ?items. k \<in> set ?ks"
    by (auto dest!: set_zip_rightD)
  have ml: "mset (concat (map (bucket labels group_keys) ?ks)) = mset labels"
    using mset_concat_keyed_all [OF d cover, of fst] assms
    by (simp add: keyed_zip3_labels [OF assms])
  have "map (fst \<circ> snd) ?items = preds"
    using assms by (induction labels preds group_keys rule: list_induct3) auto
  then have mp: "mset (concat (map (bucket preds group_keys) ?ks)) = mset preds"
    using mset_concat_keyed_all [OF d cover, of "fst \<circ> snd"]
    by (simp add: keyed_zip3_preds [OF assms])
  have "map (\<lambda>(l, p, k'). (l, p)) ?items = zip labels preds"
    using assms by (induction labels preds group_keys rule: list_induct3) auto
  then have mz: "mset (concat (map2 zip (map (bucket labels group_keys) ?ks)
                    (map (bucket preds group_keys) ?ks))) = mset (zip labels preds)"
    using mset_concat_keyed_all [OF d cover, of "\<lambda>(l, p, k'). (l, p)"]
    by (simp add: zip_map_map zip_same_conv_map zip_buckets [OF assms] o_def)
  have sl: "sum_list (map length (map (bucket labels group_keys) ?ks)) = length labels"
    using arg_cong [OF ml, of size] by (simp add: length_concat)
  have sp: "sum_list (map length (map (bucket preds group_keys) ?ks)) = length preds"
    using arg_cong [OF mp, of size] by (simp add: length_concat)
  show ?thesis
    using group_labels_eq [OF assms] sorted_keys [of group_keys] ml mp mz sl sp
    by simp
qed

theorem group_labels_spec_witness:
  "length [1, 0, 1 :: nat] = length [10, 20, 30 :: nat]
   \<and> length [10, 20, 30 :: nat] = length [2, 1, 2 :: int]
   \<and> group_labels [1, 0, 1 :: nat] [10, 20, 30 :: nat] [2, 1, 2] =
       Inr ([1, 2], [[0], [1, 1]], [[20], [10, 30]])"
proof -
  have h1: "length [1, 0, 1 :: nat] = length [10, 20, 30 :: nat]" by simp
  have h2: "length [10, 20, 30 :: nat] = length [2, 1, 2 :: int]" by simp
  show ?thesis
    using group_labels_spec [OF h1 h2]
    by (simp add: group_labels_def Let_def bucket_def)
qed

section \<open>Properties of the vector caches\<close>

lemma dict_of_snoc: "dict_of (kvs @ [(k, v)]) = (dict_of kvs)(k \<mapsto> v)"
  by (simp add: dict_of_def)

lemma last_emitted_snoc:
  "last_emitted (kvs @ [(k, v)]) k' = (if k' = k then Some v else last_emitted kvs k')"
  by (simp add: last_emitted_def)

lemma dict_of_last_emitted: "dict_of kvs k = last_emitted kvs k"
proof (induction kvs rule: rev_induct)
  case Nil
  show ?case by (simp add: dict_of_def last_emitted_def)
next
  case (snoc kv kvs)
  obtain k' v where kv: "kv = (k', v)" by (cases kv)
  show ?case
    unfolding kv by (simp add: dict_of_snoc last_emitted_snoc snoc.IH)
qed

lemma run_news_loop_result:
  assumes "newsencoder (net m) = Some enc"
  shows "run_news_loop m st bs idx vecs =
           Inr (idx @ concat (map news_index_batch bs),
                vecs @ concat (map (\<lambda>b. enc (weights st) (news_feature b)) bs))"
  using assms by (induction bs arbitrary: idx vecs) (simp_all add: news_def)

lemma run_user_loop_result:
  assumes "userencoder (net m) = Some enc"
  shows "run_user_loop m st bs idx vecs =
           Inr (idx @ concat (map impr_index_batch bs),
                vecs @ concat (map (\<lambda>b. enc (weights st) (user_feature b)) bs))"
  using assms by (induction bs arbitrary: idx vecs) (simp_all add: user_def)

lemma zip_concat_aligned:
  assumes "\<forall>b \<in> set bs. length (f b) = length (g b)"
  shows "zip (concat (map f bs)) (concat (map g bs)) = concat (map (\<lambda>b. zip (f b) (g b)) bs)"
  using assms by (induction bs) simp_all

lemma run_news_aligned:
  assumes "newsencoder (net m) = Some enc" and "aligned_news m st nf"
  shows "run_news m st nf = Inr (dict_of (emitted_news m st nf))"
  using assms zip_concat_aligned [of "load_news_from_file (test_iterator m) nf"
      news_index_batch "\<lambda>b. enc (weights st) (news_feature b)"]
  by (simp add: run_news_def run_news_loop_result aligned_news_def emitted_news_def)

lemma run_user_aligned:
  assumes "userencoder (net m) = Some enc" and "aligned_user m st nf bf"
  shows "run_user m st nf bf = Inr (dict_of (emitted_user m st nf bf))"
  using assms zip_concat_aligned [of "load_user_from_file (test_iterator m) nf bf"
      impr_index_batch "\<lambda>b. enc (weights st) (user_feature b)"]
  by (simp add: run_user_def run_user_loop_result aligned_user_def emitted_user_def)

text \<open>
  Claim C8, as amended. \<^verbatim>\<open>dict(zip(indexes, vecs))\<close> inserts the pairs in stream order
  and a later pair overwrites an earlier one: when every batch has as many indexes as
  encoded vectors, \<open>run_news\<close> and \<open>run_user\<close> return a cache that maps every index to
  the last vector emitted for it (and holds no other index).
\<close>

theorem cache_last_emitted_wins:
  "(newsencoder (net m) \<noteq> None \<and> aligned_news m st nf \<longrightarrow>
      (\<exists>nv. run_news m st nf = Inr nv \<and> (\<forall>k. nv k = last_emitted (emitted_news m st nf) k)))
   \<and> (userencoder (net m) \<noteq> None \<and> aligned_user m st nf bf \<longrightarrow>
      (\<exists>uv. run_user m st nf bf = Inr uv
         \<and> (\<forall>k. uv k = last_emitted (emitted_user m st nf bf) k)))"
  using run_news_aligned [of m _ st nf] run_user_aligned [of m _ st nf bf]
  by (auto simp: dict_of_last_emitted)

theorem cache_last_emitted_wins_witness:
  "newsencoder (net duplicate_model) \<noteq> None
   \<and> aligned_news duplicate_model scenario_state []
   \<and> userencoder (net duplicate_model) \<noteq> None
   \<and> aligned_user duplicate_model scenario_state [] []
   \<and> emitted_news duplicate_model scenario_state [] = [(7, [1, 0]), (7, [0, 1])]
   \<and> emitted_user duplicate_model scenario_state [] [] = [(3, [5]), (3, [6])]
   \<and> map_sum id (\<lambda>nv. nv 7) (run_news duplicate_model scenario_state []) = Inr (Some [0, 1])
   \<and> map_sum id (\<lambda>uv. uv 3) (run_user duplicate_model scenario_state [] []) = Inr (Some [6])"
  using cache_last_emitted_wins [of duplicate_model scenario_state "[]" "[]"]
  by (auto simp: duplicate_model_def duplicate_iterator_def scenario_model_def
      scenario_network_def scenario_state_def aligned_news_def aligned_user_def
      emitted_news_def emitted_user_def last_emitted_def)

text \<open>
  Claim C8 as stated fails: no aligned stream, with or without duplicated indexes,
  leaves the cache of \<open>run_news\<close> with anything but the last vector emitted for an index.
\<close>

theorem cache_not_last_counterexample:
  "\<not> (\<exists>(m :: (nat, vec \<times> vec, vec list, vec list) base_model) st nf nv k.
         newsencoder (net m) \<noteq> None \<and> aligned_news m st nf \<and> run_news m st nf = Inr nv
         \<and> nv k \<noteq> last_emitted (emitted_news m st nf) k)"
  using run_news_aligned by (fastforce simp: dict_of_last_emitted)


section \<open>Properties of fast evaluation\<close>

lemma lookup_all_result:
  "lookup_all d ks =
     (if \<forall>i \<in> set ks. d i \<noteq> None then Inr (map (\<lambda>i. the (d i)) ks) else Inl KeyError)"
  by (induction ks) (auto simp: lookup_def split: option.splits)

lemma fast_pred_scorable:
  assumes "scorable nv uv (i, ns, u, l)"
  shows "fast_pred nv uv i ns = Inr (dot_pred nv uv (i, ns, u, l))"
proof -
  from assms obtain uvec where u: "uv i = Some uvec" and ne: "ns \<noteq> []"
    and rows: "\<forall>n \<in> set ns. \<exists>v. nv n = Some v \<and> length v = length uvec"
    by (auto simp: scorable_def split: option.splits)
  have la: "lookup_all nv ns = Inr (map (\<lambda>n. the (nv n)) ns)"
    using rows by (auto simp: lookup_all_result)
  have len: "\<forall>r \<in> set (map (\<lambda>n. the (nv n)) ns). length r = length uvec"
    using rows by auto
  have hdlen: "length (hd (map (\<lambda>n. the (nv n)) ns)) = length uvec"
    using len ne by (cases ns) auto
  have st: "np_stack (map (\<lambda>n. the (nv n)) ns) = Inr (map (\<lambda>n. the (nv n)) ns)"
    using ne len hdlen by (simp add: np_stack_def)
  have nd: "np_dot (map (\<lambda>n. the (nv n)) ns) uvec = Inr (map (\<lambda>r. dot r uvec) (map (\<lambda>n. the (nv n)) ns))"
    using len by (simp add: np_dot_def)
  show ?thesis
    by (simp add: fast_pred_def rbind_def la st nd u lookup_def dot_pred_def o_def)
qed

lemma fast_pred_not_scorable:
  assumes "\<not> scorable nv uv (i, ns, u, l)"
  shows "\<exists>e. fast_pred nv uv i ns = Inl e"
proof (cases "lookup_all nv ns")
  case (Inl e)
  then show ?thesis by (simp add: fast_pred_def rbind_def)
next
  case (Inr rows)
  then have all: "\<forall>n \<in> set ns. nv n \<noteq> None" and rows: "rows = map (\<lambda>n. the (nv n)) ns"
    by (auto simp: lookup_all_result split: if_splits)
  show ?thesis
  proof (cases "np_stack rows")
    case (Inl e)
    then show ?thesis using Inr by (simp add: fast_pred_def rbind_def)
  next
    case st: (Inr stacked)
    then have ne: "rows \<noteq> []" and stacked: "stacked = rows"
      by (auto simp: np_stack_def split: if_splits)
    show ?thesis
    proof (cases "uv i")
      case None
      then show ?thesis using Inr st by (simp add: fast_pred_def rbind_def lookup_def)
    next
      case (Some uvec)
      have "\<exists>r \<in> set rows. length r \<noteq> length uvec"
      proof (rule ccontr)
        assume "\<not> (\<exists>r \<in> set rows. length r \<noteq> length uvec)"
        then have "\<forall>n \<in> set ns. \<exists>v. nv n = Some v \<and> length v = length uvec"
          using all rows by fastforce
        then have "scorable nv uv (i, ns, u, l)"
          using ne rows Some by (auto simp: scorable_def)
        with assms show False by simp
      qed
      then show ?thesis
        using Inr st stacked Some by (simp add: fast_pred_def rbind_def lookup_def np_dot_def)
    qed
  qed
qed

lemma run_fast_eval_loop_scorable:
  assumes "\<forall>imp \<in> set imps. scorable nv uv imp"
  shows "run_fast_eval_loop nv uv imps gi gl gp =
           Inr (gi @ map impr_key imps, gl @ map impr_label imps, gp @ map (dot_pred nv uv) imps)"
  using assms
proof (induction imps arbitrary: gi gl gp)
  case Nil
  show ?case by simp
next
  case (Cons imp imps)
  obtain i ns u l where imp: "imp = (i, ns, u, l)" by (cases imp)
  have "fast_pred nv uv i ns = Inr (dot_pred nv uv (i, ns, u, l))"
    using Cons.prems imp by (intro fast_pred_scorable) simp
  then show ?case
    using Cons imp by (simp add: impr_key_def impr_label_def)
qed

lemma run_fast_eval_loop_not_scorable:
  assumes "\<not> (\<forall>imp \<in> set imps. scorable nv uv imp)"
  shows "\<exists>e. run_fast_eval_loop nv uv imps gi gl gp = Inl e"
  using assms
proof (induction imps arbitrary: gi gl gp)
  case Nil
  then show ?case by simp
next
  case (Cons imp imps)
  obtain i ns u l where imp: "imp = (i, ns, u, l)" by (cases imp)
  show ?case
  proof (cases "scorable nv uv imp")
    case True
    then have "\<not> (\<forall>imp \<in> set imps. scorable nv uv imp)" using Cons.prems by simp
    from Cons.IH [OF this] show ?thesis
      using True imp by (simp add: fast_pred_scorable)
  next
    case False
    then obtain e where "fast_pred nv uv i ns = Inl e"
      using fast_pred_not_scorable imp by blast
    then show ?thesis using imp by simp
  qed
qed

text \<open>
  Claim C3. Given the two caches, \<open>run_fast_eval\<close> returns exactly when every record
  of the impression stream can be scored; it then emits one group entry per record, in
  stream order and with no grouping pass: the record's impression index, its labels, and
  as prediction the dot products of the cached vectors of its candidates with the cached
  user vector of the impression. The witness is the scenario of the specification:
  prediction \<open>[2,3]\<close> and label \<open>[1,0]\<close> for the single impression.
\<close>

theorem run_fast_eval_spec:
  assumes "run_news m st nf = Inr nv" and "run_user m st nf bf = Inr uv"
  shows "(if \<forall>imp \<in> set (load_impression_from_file (test_iterator m) bf). scorable nv uv imp
          then run_fast_eval m st nf bf =
                 Inr ((map impr_key (load_impression_from_file (test_iterator m) bf),
                       map impr_label (load_impression_from_file (test_iterator m) bf),
                       map (dot_pred nv uv) (load_impression_from_file (test_iterator m) bf)),
                      st\<lparr>news_vecs := nv, user_vecs := uv\<rparr>)
          else \<exists>e. run_fast_eval m st nf bf = Inl e)"
proof (cases "\<forall>imp \<in> set (load_impression_from_file (test_iterator m) bf). scorable nv uv imp")
  case True
  then show ?thesis
    using assms run_fast_eval_loop_scorable [OF True, of "[]" "[]" "[]"]
    by (simp add: run_fast_eval_def rbind_def)
next
  case False
  from run_fast_eval_loop_not_scorable [OF False, of "[]" "[]" "[]"]
  obtain e where "run_fast_eval_loop nv uv (load_impression_from_file (test_iterator m) bf) [] [] [] = Inl e"
    by blast
  then show ?thesis
    using assms False by (simp add: run_fast_eval_def rbind_def)
qed

lemma scenario_news:
  "run_news scenario_model scenario_state nf = Inr (dict_of [(10, [1, 0]), (11, [0, 1])])"
  by (simp add: run_news_def news_def scenario_model_def scenario_network_def
      scenario_iterator_def scenario_state_def)

lemma scenario_user:
  "run_user scenario_model scenario_state nf bf = Inr (dict_of [(0, [2, 3])])"
  by (simp add: run_user_def user_def scenario_model_def scenario_network_def
      scenario_iterator_def scenario_state_def)

theorem run_fast_eval_spec_witness:
  "run_news scenario_model scenario_state [] = Inr (dict_of [(10, [1, 0]), (11, [0, 1])])
   \<and> run_user scenario_model scenario_state [] [] = Inr (dict_of [(0, [2, 3])])
   \<and> load_impression_from_file (test_iterator scenario_model) [] = [(0, [10, 11], 0, [1, 0])]
   \<and> map_sum id fst (run_fast_eval scenario_model scenario_state [] []) =
       Inr ([0], [[1, 0]], [[2, 3]])"
  using run_fast_eval_spec [OF scenario_news [of "[]"] scenario_user [of "[]" "[]"]]
    scenario_news [of "[]"] scenario_user [of "[]" "[]"]
  by (simp add: scenario_model_def scenario_iterator_def scorable_def dict_of_def
      dot_pred_def dot_def impr_key_def impr_label_def)

section \<open>Frame properties of an epoch\<close>

lemma rbind_Inr_iff: "rbind x f = Inr y \<longleftrightarrow> (\<exists>v. x = Inr v \<and> f v = Inr y)"
  by (cases x) (simp_all add: rbind_def)

lemma train_frame:
  "train m st b = (loss, st') \<Longrightarrow>
     last_eval_res st' = last_eval_res st
     \<and> optimizer_learning_rate st' = optimizer_learning_rate st
     \<and> printed st' = printed st"
  by (auto simp: train_def split: prod.splits)

lemma train_loop_frame:
  assumes "train_loop m bs step epoch_loss st = Inr (step', epoch_loss', st')"
  shows "last_eval_res st' = last_eval_res st
     \<and> optimizer_learning_rate st' = optimizer_learning_rate st
     \<and> (\<exists>out. printed st' = printed st @ out \<and> monitored hp out = []
            \<and> \<not> fine_step_fired out \<and> StoppedEarly \<notin> set out)"
  using assms
proof (induction bs arbitrary: step epoch_loss st)
  case Nil
  then show ?case by (auto simp: monitored_def fine_step_fired_def)
next
  case (Cons b bs)
  obtain loss st1 where t: "train m st b = (loss, st1)" by (cases "train m st b")
  note f = train_frame [OF t]
  let ?st2 = "if (step + 1) mod show_step (hparams m) = 0
              then st1\<lparr>printed := printed st1 @
                     [Description (step + 1) ((epoch_loss + loss) / of_int (step + 1)) loss]\<rparr>
              else st1"
  from Cons.prems t have run: "train_loop m bs (step + 1) (epoch_loss + loss) ?st2 =
      Inr (step', epoch_loss', st')"
    by (simp add: Let_def split: if_splits)
  from Cons.IH [OF run] obtain out where
    a: "last_eval_res st' = last_eval_res ?st2"
    and b: "optimizer_learning_rate st' = optimizer_learning_rate ?st2"
    and c: "printed st' = printed ?st2 @ out" "monitored hp out = []"
       "\<not> fine_step_fired out" "StoppedEarly \<notin> set out"
    by blast
  show ?case
  proof (cases "(step + 1) mod show_step (hparams m) = 0")
    case True
    let ?d = "Description (step + 1) ((epoch_loss + loss) / of_int (step + 1)) loss"
    have "printed st' = printed st @ (?d # out)"
      using c(1) True f by simp
    moreover have "monitored hp (?d # out) = []" "\<not> fine_step_fired (?d # out)"
      "StoppedEarly \<notin> set (?d # out)"
      using c by (simp_all add: monitored_def fine_step_fired_def)
    moreover have "last_eval_res st' = last_eval_res st"
      "optimizer_learning_rate st' = optimizer_learning_rate st"
      using a b True f by simp_all
    ultimately show ?thesis by blast
  next
    case False
    then show ?thesis using a b c f by auto
  qed
qed



lemma run_eval_frame:
  assumes "run_eval m st nf bf = Inr (res, st')"
  shows "last_eval_res st' = last_eval_res st
     \<and> optimizer_learning_rate st' = optimizer_learning_rate st
     \<and> printed st' = printed st \<and> current_epoch st' = current_epoch st"
  using assms
  by (auto simp: run_eval_def run_fast_eval_def rbind_Inr_iff split: if_splits prod.splits)

lemma run_test_eval_frame:
  assumes "run_test_eval m st tf = Inr (res, st')"
  shows "last_eval_res st' = last_eval_res st
     \<and> optimizer_learning_rate st' = optimizer_learning_rate st
     \<and> printed st' = printed st \<and> current_epoch st' = current_epoch st"
  using assms run_eval_frame
  by (auto simp: run_test_eval_def rbind_Inr_iff split: option.splits prod.splits) blast+

lemma fine_step_frame:
  "last_eval_res (fine_step hp epoch st) = last_eval_res st
   \<and> (\<exists>out. printed (fine_step hp epoch st) = printed st @ out \<and> monitored hp' out = []
         \<and> StoppedEarly \<notin> set out
         \<and> optimizer_learning_rate (fine_step hp epoch st) =
             (if fine_step_fired out then learning_rate hp * fine_step_factor hp
              else optimizer_learning_rate st))"
proof (cases "use_fine_step hp = Some True \<and> epoch = fine_step_from_epoch hp")
  case True
  then have "printed (fine_step hp epoch st) = printed st @ [DecreasingLearningRate]"
    "optimizer_learning_rate (fine_step hp epoch st) = learning_rate hp * fine_step_factor hp"
    "last_eval_res (fine_step hp epoch st) = last_eval_res st"
    by (simp_all add: fine_step_def)
  moreover have "monitored hp' [DecreasingLearningRate] = []"
    "StoppedEarly \<notin> set [DecreasingLearningRate]" "fine_step_fired [DecreasingLearningRate]"
    by (simp_all add: monitored_def fine_step_fired_def)
  ultimately show ?thesis by metis
next
  case False
  then have "fine_step hp epoch st = st" by (auto simp: fine_step_def)
  moreover have "monitored hp' [] = []" "\<not> fine_step_fired []"
    by (simp_all add: monitored_def fine_step_fired_def)
  ultimately show ?thesis by (metis append_Nil2 empty_iff empty_set)
qed


lemma valid_eval_frame:
  assumes "valid_eval m st vn vb = Inr (res, st')"
  shows "last_eval_res st' = last_eval_res st
     \<and> optimizer_learning_rate st' = optimizer_learning_rate st
     \<and> printed st' = printed st \<and> current_epoch st' = current_epoch st"
  using assms run_eval_frame [of m st vn vb]
  by (auto simp: valid_eval_def rbind_Inr_iff split: if_splits)

lemma summary_frame:
  "last_eval_res (summary_and_checkpoint cp epoch avg er tr st) = last_eval_res st
   \<and> optimizer_learning_rate (summary_and_checkpoint cp epoch avg er tr st) =
       optimizer_learning_rate st
   \<and> current_epoch (summary_and_checkpoint cp epoch avg er tr st) = current_epoch st
   \<and> printed (summary_and_checkpoint cp epoch avg er tr st) =
       printed st @ [EpochInfo epoch avg er tr]"
  by (simp add: summary_and_checkpoint_def Let_def split: option.splits)

lemma train_eval_effect:
  assumes "custom_fit_train_eval m tn tb vn vb tf cp epoch st = Inr (eval_res, st5)"
  shows "last_eval_res st5 = last_eval_res st
     \<and> (\<exists>out avg test_res.
            printed st5 = printed st @ out @ [EpochInfo epoch avg eval_res test_res]
          \<and> monitored hp' out = [] \<and> StoppedEarly \<notin> set out
          \<and> optimizer_learning_rate st5 =
              (if fine_step_fired out
               then learning_rate (hparams m) * fine_step_factor (hparams m)
               else optimizer_learning_rate st))"
proof -
  let ?st0 = "(fine_step (hparams m) epoch st)\<lparr>current_epoch := epoch\<rparr>"
  from assms obtain step loss st1 avg st2 test_res st3 where
    tl: "train_loop m (load_data_from_file (train_iterator m) tn tb) 0 0 ?st0 =
           Inr (step, loss, st1)"
    and ev: "valid_eval m st1 vn vb = Inr (eval_res, st2)"
    and te: "run_test_eval m st2 tf = Inr (test_res, st3)"
    and fin: "st5 = summary_and_checkpoint cp epoch avg eval_res test_res st3"
    by (auto simp: custom_fit_train_eval_def rbind_Inr_iff)
  from fine_step_frame [of "hparams m" epoch st hp'] obtain out0 where
    f0: "last_eval_res (fine_step (hparams m) epoch st) = last_eval_res st"
      "printed (fine_step (hparams m) epoch st) = printed st @ out0"
      "monitored hp' out0 = []" "StoppedEarly \<notin> set out0"
      "optimizer_learning_rate (fine_step (hparams m) epoch st) =
         (if fine_step_fired out0 then learning_rate (hparams m) * fine_step_factor (hparams m)
          else optimizer_learning_rate st)"
    by blast
  from train_loop_frame [OF tl, of hp'] obtain out1 where
    f1: "last_eval_res st1 = last_eval_res ?st0"
      "optimizer_learning_rate st1 = optimizer_learning_rate ?st0"
      "printed st1 = printed ?st0 @ out1" "monitored hp' out1 = []"
      "\<not> fine_step_fired out1" "StoppedEarly \<notin> set out1"
    by blast
  note f2 = valid_eval_frame [OF ev]
  note f3 = run_test_eval_frame [OF te]
  note f5 = summary_frame [of cp epoch avg eval_res test_res st3, folded fin]
  have p: "printed st5 = printed st @ (out0 @ out1) @ [EpochInfo epoch avg eval_res test_res]"
    using f0 f1 f2 f3 f5 by simp
  have mo: "monitored hp' (out0 @ out1) = []" "StoppedEarly \<notin> set (out0 @ out1)"
    using f0 f1 by (simp_all add: monitored_def)
  have fired: "fine_step_fired (out0 @ out1) = fine_step_fired out0"
    using f1(5) by (auto simp: fine_step_fired_def)
  have lr: "optimizer_learning_rate st5 =
      (if fine_step_fired (out0 @ out1)
       then learning_rate (hparams m) * fine_step_factor (hparams m)
       else optimizer_learning_rate st)"
    using f0 f1 f2 f3 f5 fired by simp
  have le: "last_eval_res st5 = last_eval_res st"
    using f0 f1 f2 f3 f5 by simp
  show ?thesis using le p mo lr by blast
qed

lemma update_history_effect:
  assumes "update_history hp v st = Inr st'"
  shows "st' = st\<lparr>last_eval_res :=
                  (if early_stopping_patience hp \<le> int (length (last_eval_res st))
                   then tl (last_eval_res st) else last_eval_res st) @ [v]\<rparr>
         \<and> (early_stopping_patience hp \<le> int (length (last_eval_res st))
              \<longrightarrow> last_eval_res st \<noteq> [])"
  using assms by (auto simp: update_history_def split: if_splits list.splits)

lemma update_history_nonempty:
  assumes "last_eval_res st \<noteq> []"
  shows "update_history hp v st =
           Inr (st\<lparr>last_eval_res :=
                  (if early_stopping_patience hp \<le> int (length (last_eval_res st))
                   then tl (last_eval_res st) else last_eval_res st) @ [v]\<rparr>)"
  using assms by (auto simp: update_history_def split: list.splits)


lemma early_stopping_unfold:
  assumes "use_early_stopping hp = Some True"
    and "map_of res (early_stopping_metric hp) = Some v"
    and "plateau hp epoch v (last_eval_res st) = Inr b"
  shows "early_stopping hp epoch (Some res) st =
     (if b then
        (if use_fine_step hp = Some True then
           (if fine_step_from_epoch hp \<le> epoch
            then Inr (Return (st\<lparr>printed := printed st @ [StoppedEarly]\<rparr>))
            else rbind (update_history hp v
                          (st\<lparr>printed := printed st @ [GoingToFineTuning],
                              optimizer_learning_rate :=
                                learning_rate hp * fine_step_factor hp\<rparr>))
                   (\<lambda>st'. Inr (Continue st')))
         else Inr (Return (st\<lparr>printed := printed st @ [StoppedEarly]\<rparr>)))
      else rbind (update_history hp v st) (\<lambda>st'. Inr (Continue st')))"
  using assms by (simp add: early_stopping_def rbind_def lookup_def)

lemma early_stopping_reads:
  assumes "use_early_stopping hp = Some True"
    and "early_stopping hp epoch eval_res st = Inr fl"
  shows "\<exists>res v b. eval_res = Some res \<and> map_of res (early_stopping_metric hp) = Some v
           \<and> plateau hp epoch v (last_eval_res st) = Inr b"
proof (cases eval_res)
  case None
  with assms show ?thesis by (simp add: early_stopping_def rbind_def)
next
  case (Some res)
  show ?thesis
  proof (cases "map_of res (early_stopping_metric hp)")
    case None
    with assms Some show ?thesis by (simp add: early_stopping_def rbind_def lookup_def)
  next
    case v: (Some v)
    show ?thesis
    proof (cases "plateau hp epoch v (last_eval_res st)")
      case (Inl e)
      with assms Some v show ?thesis by (simp add: early_stopping_def rbind_def lookup_def)
    next
      case (Inr b)
      with Some v show ?thesis by blast
    qed
  qed
qed

lemma early_stopping_cases:
  assumes "use_early_stopping hp = Some True"
    and "early_stopping hp epoch eval_res st = Inr fl"
  obtains (stop) res v where "eval_res = Some res" "map_of res (early_stopping_metric hp) = Some v"
      "plateau hp epoch v (last_eval_res st) = Inr True"
      "use_fine_step hp \<noteq> Some True \<or> fine_step_from_epoch hp \<le> epoch"
      "fl = Return (st\<lparr>printed := printed st @ [StoppedEarly]\<rparr>)"
  | (tune) res v st' where "eval_res = Some res" "map_of res (early_stopping_metric hp) = Some v"
      "plateau hp epoch v (last_eval_res st) = Inr True"
      "use_fine_step hp = Some True" "epoch < fine_step_from_epoch hp"
      "update_history hp v (st\<lparr>printed := printed st @ [GoingToFineTuning],
          optimizer_learning_rate := learning_rate hp * fine_step_factor hp\<rparr>) = Inr st'"
      "fl = Continue st'"
  | (go) res v st' where "eval_res = Some res" "map_of res (early_stopping_metric hp) = Some v"
      "plateau hp epoch v (last_eval_res st) = Inr False"
      "update_history hp v st = Inr st'" "fl = Continue st'"
proof -
  from early_stopping_reads [OF assms] obtain res v b where
    r: "eval_res = Some res" "map_of res (early_stopping_metric hp) = Some v"
      "plateau hp epoch v (last_eval_res st) = Inr b"
    by blast
  note u = early_stopping_unfold [OF assms(1) r(2) r(3)]
  have run: "early_stopping hp epoch (Some res) st = Inr fl"
    using assms(2) r(1) by simp
  show thesis
  proof (cases b)
    case False
    then have p: "plateau hp epoch v (last_eval_res st) = Inr False" using r(3) by simp
    have "rbind (update_history hp v st) (\<lambda>st'. Inr (Continue st')) = Inr fl"
      using run False by (simp add: u)
    then obtain st' where s: "update_history hp v st = Inr st'" "fl = Continue st'"
      unfolding rbind_Inr_iff by auto
    show thesis by (rule go [OF r(1) r(2) p s])
  next
    case True
    then have p: "plateau hp epoch v (last_eval_res st) = Inr True" using r(3) by simp
    show thesis
    proof (cases "use_fine_step hp = Some True \<and> epoch < fine_step_from_epoch hp")
      case t: True
      then have t1: "use_fine_step hp = Some True" and t2: "epoch < fine_step_from_epoch hp"
        by simp_all
      have "rbind (update_history hp v (st\<lparr>printed := printed st @ [GoingToFineTuning],
            optimizer_learning_rate := learning_rate hp * fine_step_factor hp\<rparr>))
           (\<lambda>st'. Inr (Continue st')) = Inr fl"
        using run True t1 t2 by (simp add: u)
      then obtain st' where
        s: "update_history hp v (st\<lparr>printed := printed st @ [GoingToFineTuning],
          optimizer_learning_rate := learning_rate hp * fine_step_factor hp\<rparr>) = Inr st'"
        "fl = Continue st'"
        unfolding rbind_Inr_iff by auto
      show thesis by (rule tune [OF r(1) r(2) p t1 t2 s])
    next
      case f: False
      then have f': "use_fine_step hp \<noteq> Some True \<or> fine_step_from_epoch hp \<le> epoch"
        by auto
      have "Inr (Return (st\<lparr>printed := printed st @ [StoppedEarly]\<rparr>)) = Inr fl"
        using run True f' unfolding u by (simp split: if_splits)
      then have s: "fl = Return (st\<lparr>printed := printed st @ [StoppedEarly]\<rparr>)"
        by simp
      show thesis by (rule stop [OF r(1) r(2) p f' s])
    qed
  qed
qed

section \<open>The early stopping callback\<close>

lemma plateau_nonempty:
  assumes "early_stopping_start_from_epoch hp \<le> epoch" and "h \<noteq> []"
  shows "plateau hp epoch v h = Inr (v < Min (set h) + early_stopping_delta hp)"
  using assms by (simp add: plateau_def min_list_Min)

lemma callback_transitions:
  assumes "use_early_stopping hp = Some True"
    and "early_stopping_start_from_epoch hp \<le> epoch"
    and "map_of res (early_stopping_metric hp) = Some v"
    and "last_eval_res st \<noteq> []"
  shows "(v < Min (set (last_eval_res st)) + early_stopping_delta hp
            \<and> (use_fine_step hp \<noteq> Some True \<or> fine_step_from_epoch hp \<le> epoch)
          \<longrightarrow> early_stopping hp epoch (Some res) st =
                Inr (Return (st\<lparr>printed := printed st @ [StoppedEarly]\<rparr>)))
       \<and> (v < Min (set (last_eval_res st)) + early_stopping_delta hp
            \<and> use_fine_step hp = Some True \<and> epoch < fine_step_from_epoch hp
          \<longrightarrow> (\<exists>st'. early_stopping hp epoch (Some res) st = Inr (Continue st')
                 \<and> optimizer_learning_rate st' = learning_rate hp * fine_step_factor hp
                 \<and> (optimizer_learning_rate st = learning_rate hp
                      \<longrightarrow> optimizer_learning_rate st' =
                            optimizer_learning_rate st * fine_step_factor hp)
                 \<and> weights st' = weights st
                 \<and> printed st' = printed st @ [GoingToFineTuning]))
       \<and> (\<not> v < Min (set (last_eval_res st)) + early_stopping_delta hp
          \<longrightarrow> (\<exists>st'. early_stopping hp epoch (Some res) st = Inr (Continue st')
                 \<and> optimizer_learning_rate st' = optimizer_learning_rate st
                 \<and> weights st' = weights st
                 \<and> printed st' = printed st))"
proof -
  note p = plateau_nonempty [OF assms(2) assms(4), of v]
  note u = early_stopping_unfold [OF assms(1) assms(3) p]
  let ?tuned = "st\<lparr>printed := printed st @ [GoingToFineTuning],
                   optimizer_learning_rate := learning_rate hp * fine_step_factor hp\<rparr>"
  have ne: "last_eval_res ?tuned \<noteq> []" using assms(4) by simp
  show ?thesis
    unfolding u
    by (simp add: update_history_nonempty [OF assms(4)] update_history_nonempty [OF ne] rbind_def)
qed

section \<open>The learning rate under fine stepping\<close>

lemma custom_fit_epoch_split:
  assumes "custom_fit_epoch m tn tb vn vb tf cp epoch st = Inr fl"
  obtains eval_res st5 where
    "custom_fit_train_eval m tn tb vn vb tf cp epoch st = Inr (eval_res, st5)"
    "early_stopping (hparams m) epoch eval_res st5 = Inr fl"
  using assms by (auto simp: custom_fit_epoch_def rbind_Inr_iff)

lemma custom_fit_loop_Cons:
  assumes "custom_fit_loop m tn tb vn vb tf cp (epoch # rest) st = Inr st'"
  obtains (return) "custom_fit_epoch m tn tb vn vb tf cp epoch st = Inr (Return st')"
  | (continue) st1 where "custom_fit_epoch m tn tb vn vb tf cp epoch st = Inr (Continue st1)"
      "custom_fit_loop m tn tb vn vb tf cp rest st1 = Inr st'"
  using assms by (auto split: sum.splits flow.splits)

lemma fired_append: "fine_step_fired (a @ b) \<longleftrightarrow> fine_step_fired a \<or> fine_step_fired b"
  by (auto simp: fine_step_fired_def)

lemma early_stopping_rate:
  assumes "early_stopping hp epoch eval_res st = Inr fl"
  shows "\<exists>out. printed (state_of fl) = printed st @ out
           \<and> optimizer_learning_rate (state_of fl) =
               (if GoingToFineTuning \<in> set out then learning_rate hp * fine_step_factor hp
                else optimizer_learning_rate st)
           \<and> fine_step_fired out = (GoingToFineTuning \<in> set out)"
proof (cases "use_early_stopping hp = Some True")
  case False
  with assms have "fl = Continue st" by (simp add: early_stopping_def)
  then have "printed (state_of fl) = printed st @ []"
    "optimizer_learning_rate (state_of fl) = optimizer_learning_rate st" by simp_all
  then show ?thesis by (metis empty_iff empty_set fine_step_fired_def)
next
  case True
  from True assms show ?thesis
  proof (cases rule: early_stopping_cases)
    case (stop res v)
    then have "printed (state_of fl) = printed st @ [StoppedEarly]"
      "optimizer_learning_rate (state_of fl) = optimizer_learning_rate st" by simp_all
    moreover have "GoingToFineTuning \<notin> set [StoppedEarly]" "\<not> fine_step_fired [StoppedEarly]"
      by (simp_all add: fine_step_fired_def)
    ultimately show ?thesis by metis
  next
    case (tune res v st')
    from update_history_effect [OF tune(6)] tune(7)
    have "printed (state_of fl) = printed st @ [GoingToFineTuning]"
      "optimizer_learning_rate (state_of fl) = learning_rate hp * fine_step_factor hp"
      by simp_all
    moreover have "GoingToFineTuning \<in> set [GoingToFineTuning]"
      "fine_step_fired [GoingToFineTuning]"
      by (simp_all add: fine_step_fired_def)
    ultimately show ?thesis by metis
  next
    case (go res v st')
    from update_history_effect [OF go(4)] go(5)
    have "printed (state_of fl) = printed st @ []"
      "optimizer_learning_rate (state_of fl) = optimizer_learning_rate st"
      by simp_all
    then show ?thesis by (metis empty_iff empty_set fine_step_fired_def)
  qed
qed

lemma custom_fit_epoch_rate:
  assumes "custom_fit_epoch m tn tb vn vb tf cp epoch st = Inr fl"
  shows "\<exists>out. printed (state_of fl) = printed st @ out
           \<and> optimizer_learning_rate (state_of fl) =
               (if fine_step_fired out
                then learning_rate (hparams m) * fine_step_factor (hparams m)
                else optimizer_learning_rate st)"
proof -
  from assms obtain eval_res st5 where
    te: "custom_fit_train_eval m tn tb vn vb tf cp epoch st = Inr (eval_res, st5)"
    and es: "early_stopping (hparams m) epoch eval_res st5 = Inr fl"
    by (rule custom_fit_epoch_split)
  from train_eval_effect [OF te, of "hparams m"] obtain out1 avg tr where
    a: "printed st5 = printed st @ out1 @ [EpochInfo epoch avg eval_res tr]"
    "optimizer_learning_rate st5 =
       (if fine_step_fired out1 then learning_rate (hparams m) * fine_step_factor (hparams m)
        else optimizer_learning_rate st)"
    by blast
  from early_stopping_rate [OF es] obtain out2 where
    b: "printed (state_of fl) = printed st5 @ out2"
    "optimizer_learning_rate (state_of fl) =
       (if GoingToFineTuning \<in> set out2
        then learning_rate (hparams m) * fine_step_factor (hparams m)
        else optimizer_learning_rate st5)"
    "fine_step_fired out2 = (GoingToFineTuning \<in> set out2)"
    by blast
  let ?out = "out1 @ [EpochInfo epoch avg eval_res tr] @ out2"
  have f: "fine_step_fired ?out \<longleftrightarrow> fine_step_fired out1 \<or> fine_step_fired out2"
    by (auto simp: fine_step_fired_def)
  have "printed (state_of fl) = printed st @ ?out" using a b by simp
  moreover have "optimizer_learning_rate (state_of fl) =
      (if fine_step_fired ?out then learning_rate (hparams m) * fine_step_factor (hparams m)
       else optimizer_learning_rate st)"
    using a(2) b(2) b(3) f by simp
  ultimately show ?thesis by blast
qed

lemma custom_fit_loop_rate:
  assumes "custom_fit_loop m tn tb vn vb tf cp es st = Inr st'"
  shows "\<exists>out. printed st' = printed st @ out
           \<and> optimizer_learning_rate st' =
               (if fine_step_fired out
                then learning_rate (hparams m) * fine_step_factor (hparams m)
                else optimizer_learning_rate st)"
  using assms
proof (induction es arbitrary: st)
  case Nil
  then have "printed st' = printed st @ []" "optimizer_learning_rate st' = optimizer_learning_rate st"
    by simp_all
  moreover have "\<not> fine_step_fired []" by (simp add: fine_step_fired_def)
  ultimately show ?case by metis
next
  case (Cons epoch rest)
  from Cons.prems show ?case
  proof (cases rule: custom_fit_loop_Cons)
    case return
    from custom_fit_epoch_rate [OF return] show ?thesis by simp
  next
    case (continue st1)
    from custom_fit_epoch_rate [OF continue(1)] obtain out1 where
      a: "printed st1 = printed st @ out1"
      "optimizer_learning_rate st1 =
         (if fine_step_fired out1 then learning_rate (hparams m) * fine_step_factor (hparams m)
          else optimizer_learning_rate st)"
      by auto
    from Cons.IH [OF continue(2)] obtain out2 where
      b: "printed st' = printed st1 @ out2"
      "optimizer_learning_rate st' =
         (if fine_step_fired out2 then learning_rate (hparams m) * fine_step_factor (hparams m)
          else optimizer_learning_rate st1)"
      by auto
    have "printed st' = printed st @ (out1 @ out2)" using a b by simp
    moreover have "optimizer_learning_rate st' =
        (if fine_step_fired (out1 @ out2)
         then learning_rate (hparams m) * fine_step_factor (hparams m)
         else optimizer_learning_rate st)"
      using a(2) b(2) by (simp add: fired_append)
    ultimately show ?thesis by blast
  qed
qed

text \<open>
  Claim C10. Both fine-step triggers assign the optimizer the rate
  \<open>learning_rate * fine_step_factor\<close> of the hyperparameters, whatever the current rate
  is: the unconditional trigger at the head of the epoch, and the plateau-driven one of
  the callback. Hence after a whole run the rate is that value if any trigger fired and
  the initial rate otherwise, however many triggers fired.
\<close>

theorem fine_step_rate_absolute:
  "optimizer_learning_rate (fine_step hp epoch st) =
     (if use_fine_step hp = Some True \<and> epoch = fine_step_from_epoch hp
      then learning_rate hp * fine_step_factor hp else optimizer_learning_rate st)
   \<and> (early_stopping hp epoch eval_res st = Inr fl \<longrightarrow>
        (\<exists>out. printed (state_of fl) = printed st @ out
           \<and> optimizer_learning_rate (state_of fl) =
               (if GoingToFineTuning \<in> set out then learning_rate hp * fine_step_factor hp
                else optimizer_learning_rate st)))
   \<and> (custom_fit m tn tb vn vb tf cp s = Inr s' \<longrightarrow>
        (\<exists>out. printed s' = printed s @ out
           \<and> optimizer_learning_rate s' =
               (if fine_step_fired out
                then learning_rate (hparams m) * fine_step_factor (hparams m)
                else optimizer_learning_rate s)))"
proof (intro conjI impI)
  show "optimizer_learning_rate (fine_step hp epoch st) =
     (if use_fine_step hp = Some True \<and> epoch = fine_step_from_epoch hp
      then learning_rate hp * fine_step_factor hp else optimizer_learning_rate st)"
    by (simp add: fine_step_def)
next
  assume "early_stopping hp epoch eval_res st = Inr fl"
  from early_stopping_rate [OF this]
  show "\<exists>out. printed (state_of fl) = printed st @ out
           \<and> optimizer_learning_rate (state_of fl) =
               (if GoingToFineTuning \<in> set out then learning_rate hp * fine_step_factor hp
                else optimizer_learning_rate st)"
    by blast
next
  assume "custom_fit m tn tb vn vb tf cp s = Inr s'"
  then have "custom_fit_loop m tn tb vn vb tf cp [1 .. epochs (hparams m)]
      (if use_early_stopping (hparams m) = Some True then s\<lparr>last_eval_res := []\<rparr> else s) = Inr s'"
    by (simp add: custom_fit_def)
  from custom_fit_loop_rate [OF this]
  show "\<exists>out. printed s' = printed s @ out
           \<and> optimizer_learning_rate s' =
               (if fine_step_fired out
                then learning_rate (hparams m) * fine_step_factor (hparams m)
                else optimizer_learning_rate s)"
    by (auto split: if_splits)
qed


lemma rising_tuned_run:
  "map_sum id (\<lambda>s. (optimizer_learning_rate s, last_eval_res s, printed s))
     (custom_fit (rising_model 2 2 (Some True)) [] [] [] [] None None scenario_state) =
   Inr (1 / 10, [3, 4],
        [EpochInfo 1 1 (Some [(''group_auc'', 2)]) None,
         EpochInfo 2 1 (Some [(''group_auc'', 3)]) None, GoingToFineTuning,
         DecreasingLearningRate,
         EpochInfo 3 1 (Some [(''group_auc'', 4)]) None])"
  by code_simp

theorem fine_step_rate_absolute_witness:
  "\<exists>s'. custom_fit (rising_model 2 2 (Some True)) [] [] [] [] None None scenario_state = Inr s'
      \<and> printed s' = printed scenario_state @
           [EpochInfo 1 1 (Some [(''group_auc'', 2)]) None,
            EpochInfo 2 1 (Some [(''group_auc'', 3)]) None, GoingToFineTuning,
            DecreasingLearningRate,
            EpochInfo 3 1 (Some [(''group_auc'', 4)]) None]
      \<and> optimizer_learning_rate s' =
           learning_rate (hparams (rising_model 2 2 (Some True)))
           * fine_step_factor (hparams (rising_model 2 2 (Some True)))
      \<and> optimizer_learning_rate s' = 1 / 10"
proof -
  from rising_tuned_run obtain s' where
    r: "custom_fit (rising_model 2 2 (Some True)) [] [] [] [] None None scenario_state = Inr s'"
    and v: "optimizer_learning_rate s' = 1 / 10"
      "printed s' = [EpochInfo 1 1 (Some [(''group_auc'', 2)]) None,
         EpochInfo 2 1 (Some [(''group_auc'', 3)]) None, GoingToFineTuning,
         DecreasingLearningRate,
         EpochInfo 3 1 (Some [(''group_auc'', 4)]) None]"
    by (cases "custom_fit (rising_model 2 2 (Some True)) [] [] [] [] None None scenario_state")
      auto
  from fine_step_rate_absolute [of _ _ _ _ _ "rising_model 2 2 (Some True)"
      "[]" "[]" "[]" "[]" None None scenario_state s'] r
  obtain out where o: "printed s' = printed scenario_state @ out"
    "optimizer_learning_rate s' =
       (if fine_step_fired out
        then learning_rate (hparams (rising_model 2 2 (Some True)))
             * fine_step_factor (hparams (rising_model 2 2 (Some True)))
        else optimizer_learning_rate scenario_state)"
    by blast
  from o(1) v(2) have "out = [EpochInfo 1 1 (Some [(''group_auc'', 2)]) None,
         EpochInfo 2 1 (Some [(''group_auc'', 3)]) None, GoingToFineTuning,
         DecreasingLearningRate,
         EpochInfo 3 1 (Some [(''group_auc'', 4)]) None]"
    by (simp add: scenario_state_def)
  then have "fine_step_fired out" by (simp add: fine_step_fired_def)
  with o(2) have "optimizer_learning_rate s' =
      learning_rate (hparams (rising_model 2 2 (Some True)))
      * fine_step_factor (hparams (rising_model 2 2 (Some True)))"
    by simp
  with r v show ?thesis by (simp add: scenario_state_def)
qed

section \<open>Stopping and continuing in the epoch loop\<close>

lemma custom_fit_loop_step:
  assumes "custom_fit_train_eval m tn tb vn vb tf cp epoch s = Inr (er, s5)"
  shows "custom_fit_loop m tn tb vn vb tf cp (epoch # rest) s =
     (case early_stopping (hparams m) epoch er s5 of
        Inl e \<Rightarrow> Inl e
      | Inr (Return s') \<Rightarrow> Inr s'
      | Inr (Continue s') \<Rightarrow> custom_fit_loop m tn tb vn vb tf cp rest s')"
  using assms by (simp add: custom_fit_epoch_def rbind_def)

lemma custom_fit_epoch_output:
  assumes "custom_fit_epoch m tn tb vn vb tf cp epoch st = Inr fl"
  shows "(\<forall>s'. fl = Return s' \<longrightarrow>
            (\<exists>out'. printed s' = printed st @ out' @ [StoppedEarly] \<and> StoppedEarly \<notin> set out'))
       \<and> (\<forall>s'. fl = Continue s' \<longrightarrow>
            (\<exists>out. printed s' = printed st @ out \<and> StoppedEarly \<notin> set out))"
proof -
  from assms obtain eval_res st5 where
    te: "custom_fit_train_eval m tn tb vn vb tf cp epoch st = Inr (eval_res, st5)"
    and cb: "early_stopping (hparams m) epoch eval_res st5 = Inr fl"
    by (rule custom_fit_epoch_split)
  from train_eval_effect [OF te, of "hparams m"] obtain out1 avg tr where
    p5: "printed st5 = printed st @ out1 @ [EpochInfo epoch avg eval_res tr]"
    and s1: "StoppedEarly \<notin> set out1"
    by blast
  let ?o = "out1 @ [EpochInfo epoch avg eval_res tr]"
  have so: "StoppedEarly \<notin> set ?o" using s1 by simp
  have p5': "printed st5 = printed st @ ?o" using p5 by simp
  show ?thesis
  proof (cases "use_early_stopping (hparams m) = Some True")
    case False
    with cb have "fl = Continue st5" by (auto simp: early_stopping_def)
    with p5' so show ?thesis by blast
  next
    case True
    from True cb show ?thesis
    proof (cases rule: early_stopping_cases)
      case (stop res v)
      have "printed (st5\<lparr>printed := printed st5 @ [StoppedEarly]\<rparr>) =
          printed st @ ?o @ [StoppedEarly]"
        using p5 by simp
      with stop(5) so show ?thesis by blast
    next
      case (tune res v st')
      from update_history_effect [OF tune(6)]
      have "printed st' = printed st @ (?o @ [GoingToFineTuning])" using p5 by simp
      moreover have "StoppedEarly \<notin> set (?o @ [GoingToFineTuning])" using s1 by simp
      ultimately show ?thesis using tune(7) by blast
    next
      case (go res v st')
      from update_history_effect [OF go(4)]
      have "printed st' = printed st @ ?o" using p5 by simp
      with so show ?thesis using go(5) by blast
    qed
  qed
qed

lemma custom_fit_loop_stop_last:
  assumes "custom_fit_loop m tn tb vn vb tf cp es st = Inr st'"
  shows "\<exists>out. printed st' = printed st @ out
           \<and> (StoppedEarly \<in> set out
                \<longrightarrow> (\<exists>out'. out = out' @ [StoppedEarly] \<and> StoppedEarly \<notin> set out'))"
  using assms
proof (induction es arbitrary: st)
  case Nil
  then have "printed st' = printed st @ []" by simp
  moreover have "StoppedEarly \<notin> set []" by simp
  ultimately show ?case by blast
next
  case (Cons epoch rest)
  from Cons.prems show ?case
  proof (cases rule: custom_fit_loop_Cons)
    case return
    from custom_fit_epoch_output [OF return] obtain o' where
      "printed st' = printed st @ (o' @ [StoppedEarly])" "StoppedEarly \<notin> set o'" by auto
    then show ?thesis by blast
  next
    case (continue st1)
    from custom_fit_epoch_output [OF continue(1)] obtain out1 where
      a: "printed st1 = printed st @ out1" "StoppedEarly \<notin> set out1" by auto
    from Cons.IH [OF continue(2)] obtain out2 where
      b: "printed st' = printed st1 @ out2"
      "StoppedEarly \<in> set out2
         \<longrightarrow> (\<exists>out'. out2 = out' @ [StoppedEarly] \<and> StoppedEarly \<notin> set out')"
      by blast
    have p: "printed st' = printed st @ (out1 @ out2)" using a b by simp
    have "\<exists>out'. out1 @ out2 = out' @ [StoppedEarly] \<and> StoppedEarly \<notin> set out'"
      if "StoppedEarly \<in> set (out1 @ out2)"
    proof -
      from that a(2) have "StoppedEarly \<in> set out2" by simp
      with b(2) obtain o' where "out2 = o' @ [StoppedEarly]" "StoppedEarly \<notin> set o'" by blast
      with a(2) have "out1 @ out2 = (out1 @ o') @ [StoppedEarly]"
        "StoppedEarly \<notin> set (out1 @ o')" by simp_all
      then show ?thesis by blast
    qed
    with p show ?thesis by blast
  qed
qed


text \<open>
  Claim C4, as amended. Take early stopping enabled, the start epoch reached, the
  monitored metric present in the evaluation result, and a history that is not empty. A
  plateau is detected exactly when the current value is strictly below the minimum of
  the history plus delta (compared as real numbers). On a plateau with fine stepping
  off, or on with its epoch reached, the callback returns, and the epoch loop of
  \<open>custom_fit\<close> halts at once: it returns the state the epoch left, with only the stop
  message added, whatever epochs remain. On a plateau with fine stepping on and its
  epoch not reached, the callback continues with the learning rate set to the configured
  rate times the fine-step factor, and the loop goes on with the remaining epochs from
  that state. Without a plateau the callback continues with the learning rate unchanged,
  and the loop goes on. In a whole run of \<open>custom_fit\<close> a stop message is the last output:
  nothing is trained, evaluated or printed after it.
\<close>

theorem early_stopping_transitions:
  "(use_early_stopping hp = Some True \<and> early_stopping_start_from_epoch hp \<le> epoch
      \<and> map_of res (early_stopping_metric hp) = Some v \<and> last_eval_res st \<noteq> []
    \<longrightarrow>
      (v < Min (set (last_eval_res st)) + early_stopping_delta hp
         \<and> (use_fine_step hp \<noteq> Some True \<or> fine_step_from_epoch hp \<le> epoch)
       \<longrightarrow> early_stopping hp epoch (Some res) st =
             Inr (Return (st\<lparr>printed := printed st @ [StoppedEarly]\<rparr>)))
    \<and> (v < Min (set (last_eval_res st)) + early_stopping_delta hp
         \<and> use_fine_step hp = Some True \<and> epoch < fine_step_from_epoch hp
       \<longrightarrow> (\<exists>st'. early_stopping hp epoch (Some res) st = Inr (Continue st')
              \<and> optimizer_learning_rate st' = learning_rate hp * fine_step_factor hp
              \<and> weights st' = weights st
              \<and> printed st' = printed st @ [GoingToFineTuning]))
    \<and> (\<not> v < Min (set (last_eval_res st)) + early_stopping_delta hp
       \<longrightarrow> (\<exists>st'. early_stopping hp epoch (Some res) st = Inr (Continue st')
              \<and> optimizer_learning_rate st' = optimizer_learning_rate st
              \<and> weights st' = weights st
              \<and> printed st' = printed st)))
   \<and> (use_early_stopping (hparams m) = Some True
      \<and> early_stopping_start_from_epoch (hparams m) \<le> epoch'
      \<and> custom_fit_train_eval m tn tb vn vb tf cp epoch' s = Inr (Some res', sa)
      \<and> map_of res' (early_stopping_metric (hparams m)) = Some v'
      \<and> last_eval_res s \<noteq> []
    \<longrightarrow>
      (v' < Min (set (last_eval_res s)) + early_stopping_delta (hparams m)
         \<and> (use_fine_step (hparams m) \<noteq> Some True \<or> fine_step_from_epoch (hparams m) \<le> epoch')
       \<longrightarrow> custom_fit_loop m tn tb vn vb tf cp (epoch' # rest) s =
             Inr (sa\<lparr>printed := printed sa @ [StoppedEarly]\<rparr>))
    \<and> (v' < Min (set (last_eval_res s)) + early_stopping_delta (hparams m)
         \<and> use_fine_step (hparams m) = Some True \<and> epoch' < fine_step_from_epoch (hparams m)
       \<longrightarrow> (\<exists>s'. early_stopping (hparams m) epoch' (Some res') sa = Inr (Continue s')
              \<and> custom_fit_loop m tn tb vn vb tf cp (epoch' # rest) s =
                  custom_fit_loop m tn tb vn vb tf cp rest s'
              \<and> optimizer_learning_rate s' =
                  learning_rate (hparams m) * fine_step_factor (hparams m)
              \<and> weights s' = weights sa
              \<and> printed s' = printed sa @ [GoingToFineTuning]))
    \<and> (\<not> v' < Min (set (last_eval_res s)) + early_stopping_delta (hparams m)
       \<longrightarrow> (\<exists>s'. early_stopping (hparams m) epoch' (Some res') sa = Inr (Continue s')
              \<and> custom_fit_loop m tn tb vn vb tf cp (epoch' # rest) s =
                  custom_fit_loop m tn tb vn vb tf cp rest s'
              \<and> optimizer_learning_rate s' = optimizer_learning_rate sa
              \<and> weights s' = weights sa
              \<and> printed s' = printed sa)))
   \<and> (custom_fit m tn tb vn vb tf cp si = Inr sf
    \<longrightarrow> (\<exists>out. printed sf = printed si @ out
          \<and> (StoppedEarly \<in> set out
               \<longrightarrow> (\<exists>out'. out = out' @ [StoppedEarly] \<and> StoppedEarly \<notin> set out'))))"
proof (intro conjI)
  show "use_early_stopping hp = Some True \<and> early_stopping_start_from_epoch hp \<le> epoch
      \<and> map_of res (early_stopping_metric hp) = Some v \<and> last_eval_res st \<noteq> []
    \<longrightarrow>
      (v < Min (set (last_eval_res st)) + early_stopping_delta hp
         \<and> (use_fine_step hp \<noteq> Some True \<or> fine_step_from_epoch hp \<le> epoch)
       \<longrightarrow> early_stopping hp epoch (Some res) st =
             Inr (Return (st\<lparr>printed := printed st @ [StoppedEarly]\<rparr>)))
    \<and> (v < Min (set (last_eval_res st)) + early_stopping_delta hp
         \<and> use_fine_step hp = Some True \<and> epoch < fine_step_from_epoch hp
       \<longrightarrow> (\<exists>st'. early_stopping hp epoch (Some res) st = Inr (Continue st')
              \<and> optimizer_learning_rate st' = learning_rate hp * fine_step_factor hp
              \<and> weights st' = weights st
              \<and> printed st' = printed st @ [GoingToFineTuning]))
    \<and> (\<not> v < Min (set (last_eval_res st)) + early_stopping_delta hp
       \<longrightarrow> (\<exists>st'. early_stopping hp epoch (Some res) st = Inr (Continue st')
              \<and> optimizer_learning_rate st' = optimizer_learning_rate st
              \<and> weights st' = weights st
              \<and> printed st' = printed st))"
  proof (intro impI, elim conjE)
    assume a: "use_early_stopping hp = Some True" "early_stopping_start_from_epoch hp \<le> epoch"
      "map_of res (early_stopping_metric hp) = Some v" "last_eval_res st \<noteq> []"
    from callback_transitions [OF a]
    show "(v < Min (set (last_eval_res st)) + early_stopping_delta hp
         \<and> (use_fine_step hp \<noteq> Some True \<or> fine_step_from_epoch hp \<le> epoch)
       \<longrightarrow> early_stopping hp epoch (Some res) st =
             Inr (Return (st\<lparr>printed := printed st @ [StoppedEarly]\<rparr>)))
    \<and> (v < Min (set (last_eval_res st)) + early_stopping_delta hp
         \<and> use_fine_step hp = Some True \<and> epoch < fine_step_from_epoch hp
       \<longrightarrow> (\<exists>st'. early_stopping hp epoch (Some res) st = Inr (Continue st')
              \<and> optimizer_learning_rate st' = learning_rate hp * fine_step_factor hp
              \<and> weights st' = weights st
              \<and> printed st' = printed st @ [GoingToFineTuning]))
    \<and> (\<not> v < Min (set (last_eval_res st)) + early_stopping_delta hp
       \<longrightarrow> (\<exists>st'. early_stopping hp epoch (Some res) st = Inr (Continue st')
              \<and> optimizer_learning_rate st' = optimizer_learning_rate st
              \<and> weights st' = weights st
              \<and> printed st' = printed st))"
      by blast
  qed
next
  show "use_early_stopping (hparams m) = Some True
      \<and> early_stopping_start_from_epoch (hparams m) \<le> epoch'
      \<and> custom_fit_train_eval m tn tb vn vb tf cp epoch' s = Inr (Some res', sa)
      \<and> map_of res' (early_stopping_metric (hparams m)) = Some v'
      \<and> last_eval_res s \<noteq> []
    \<longrightarrow>
      (v' < Min (set (last_eval_res s)) + early_stopping_delta (hparams m)
         \<and> (use_fine_step (hparams m) \<noteq> Some True \<or> fine_step_from_epoch (hparams m) \<le> epoch')
       \<longrightarrow> custom_fit_loop m tn tb vn vb tf cp (epoch' # rest) s =
             Inr (sa\<lparr>printed := printed sa @ [StoppedEarly]\<rparr>))
    \<and> (v' < Min (set (last_eval_res s)) + early_stopping_delta (hparams m)
         \<and> use_fine_step (hparams m) = Some True \<and> epoch' < fine_step_from_epoch (hparams m)
       \<longrightarrow> (\<exists>s'. early_stopping (hparams m) epoch' (Some res') sa = Inr (Continue s')
              \<and> custom_fit_loop m tn tb vn vb tf cp (epoch' # rest) s =
                  custom_fit_loop m tn tb vn vb tf cp rest s'
              \<and> optimizer_learning_rate s' =
                  learning_rate (hparams m) * fine_step_factor (hparams m)
              \<and> weights s' = weights sa
              \<and> printed s' = printed sa @ [GoingToFineTuning]))
    \<and> (\<not> v' < Min (set (last_eval_res s)) + early_stopping_delta (hparams m)
       \<longrightarrow> (\<exists>s'. early_stopping (hparams m) epoch' (Some res') sa = Inr (Continue s')
              \<and> custom_fit_loop m tn tb vn vb tf cp (epoch' # rest) s =
                  custom_fit_loop m tn tb vn vb tf cp rest s'
              \<and> optimizer_learning_rate s' = optimizer_learning_rate sa
              \<and> weights s' = weights sa
              \<and> printed s' = printed sa))"
  proof (intro impI, elim conjE)
    assume a: "use_early_stopping (hparams m) = Some True"
      "early_stopping_start_from_epoch (hparams m) \<le> epoch'"
      "map_of res' (early_stopping_metric (hparams m)) = Some v'"
      and te: "custom_fit_train_eval m tn tb vn vb tf cp epoch' s = Inr (Some res', sa)"
      and ne: "last_eval_res s \<noteq> []"
    from train_eval_effect [OF te, of "hparams m"] have h: "last_eval_res sa = last_eval_res s"
      by simp
    with ne have ne5: "last_eval_res sa \<noteq> []" by simp
    note cb = callback_transitions [OF a ne5, unfolded h]
    note step = custom_fit_loop_step [OF te, of rest]
    have stop: "custom_fit_loop m tn tb vn vb tf cp (epoch' # rest) s =
        Inr (sa\<lparr>printed := printed sa @ [StoppedEarly]\<rparr>)"
      if "v' < Min (set (last_eval_res s)) + early_stopping_delta (hparams m)
         \<and> (use_fine_step (hparams m) \<noteq> Some True \<or> fine_step_from_epoch (hparams m) \<le> epoch')"
    proof -
      from cb that have "early_stopping (hparams m) epoch' (Some res') sa =
          Inr (Return (sa\<lparr>printed := printed sa @ [StoppedEarly]\<rparr>))"
        by blast
      then show ?thesis by (subst step) simp
    qed
    have tune: "\<exists>s'. early_stopping (hparams m) epoch' (Some res') sa = Inr (Continue s')
              \<and> custom_fit_loop m tn tb vn vb tf cp (epoch' # rest) s =
                  custom_fit_loop m tn tb vn vb tf cp rest s'
              \<and> optimizer_learning_rate s' =
                  learning_rate (hparams m) * fine_step_factor (hparams m)
              \<and> weights s' = weights sa
              \<and> printed s' = printed sa @ [GoingToFineTuning]"
      if "v' < Min (set (last_eval_res s)) + early_stopping_delta (hparams m)
         \<and> use_fine_step (hparams m) = Some True \<and> epoch' < fine_step_from_epoch (hparams m)"
    proof -
      from cb that obtain s' where
        c: "early_stopping (hparams m) epoch' (Some res') sa = Inr (Continue s')"
        "optimizer_learning_rate s' = learning_rate (hparams m) * fine_step_factor (hparams m)"
        "weights s' = weights sa" "printed s' = printed sa @ [GoingToFineTuning]"
        by blast
      from c(1) have "custom_fit_loop m tn tb vn vb tf cp (epoch' # rest) s =
          custom_fit_loop m tn tb vn vb tf cp rest s'"
        by (subst step) simp
      with c show ?thesis by blast
    qed
    have go: "\<exists>s'. early_stopping (hparams m) epoch' (Some res') sa = Inr (Continue s')
              \<and> custom_fit_loop m tn tb vn vb tf cp (epoch' # rest) s =
                  custom_fit_loop m tn tb vn vb tf cp rest s'
              \<and> optimizer_learning_rate s' = optimizer_learning_rate sa
              \<and> weights s' = weights sa
              \<and> printed s' = printed sa"
      if "\<not> v' < Min (set (last_eval_res s)) + early_stopping_delta (hparams m)"
    proof -
      from cb that obtain s' where
        c: "early_stopping (hparams m) epoch' (Some res') sa = Inr (Continue s')"
        "optimizer_learning_rate s' = optimizer_learning_rate sa"
        "weights s' = weights sa" "printed s' = printed sa"
        by blast
      from c(1) have "custom_fit_loop m tn tb vn vb tf cp (epoch' # rest) s =
          custom_fit_loop m tn tb vn vb tf cp rest s'"
        by (subst step) simp
      with c show ?thesis by blast
    qed
    from stop tune go
    show "(v' < Min (set (last_eval_res s)) + early_stopping_delta (hparams m)
         \<and> (use_fine_step (hparams m) \<noteq> Some True \<or> fine_step_from_epoch (hparams m) \<le> epoch')
       \<longrightarrow> custom_fit_loop m tn tb vn vb tf cp (epoch' # rest) s =
             Inr (sa\<lparr>printed := printed sa @ [StoppedEarly]\<rparr>))
    \<and> (v' < Min (set (last_eval_res s)) + early_stopping_delta (hparams m)
         \<and> use_fine_step (hparams m) = Some True \<and> epoch' < fine_step_from_epoch (hparams m)
       \<longrightarrow> (\<exists>s'. early_stopping (hparams m) epoch' (Some res') sa = Inr (Continue s')
              \<and> custom_fit_loop m tn tb vn vb tf cp (epoch' # rest) s =
                  custom_fit_loop m tn tb vn vb tf cp rest s'
              \<and> optimizer_learning_rate s' =
                  learning_rate (hparams m) * fine_step_factor (hparams m)
              \<and> weights s' = weights sa
              \<and> printed s' = printed sa @ [GoingToFineTuning]))
    \<and> (\<not> v' < Min (set (last_eval_res s)) + early_stopping_delta (hparams m)
       \<longrightarrow> (\<exists>s'. early_stopping (hparams m) epoch' (Some res') sa = Inr (Continue s')
              \<and> custom_fit_loop m tn tb vn vb tf cp (epoch' # rest) s =
                  custom_fit_loop m tn tb vn vb tf cp rest s'
              \<and> optimizer_learning_rate s' = optimizer_learning_rate sa
              \<and> weights s' = weights sa
              \<and> printed s' = printed sa))"
      by (intro conjI impI)
  qed
next
  show "custom_fit m tn tb vn vb tf cp si = Inr sf
    \<longrightarrow> (\<exists>out. printed sf = printed si @ out
          \<and> (StoppedEarly \<in> set out
               \<longrightarrow> (\<exists>out'. out = out' @ [StoppedEarly] \<and> StoppedEarly \<notin> set out')))"
  proof
    assume "custom_fit m tn tb vn vb tf cp si = Inr sf"
    then have "custom_fit_loop m tn tb vn vb tf cp [1 .. epochs (hparams m)]
        (if use_early_stopping (hparams m) = Some True then si\<lparr>last_eval_res := []\<rparr> else si) =
        Inr sf"
      by (simp add: custom_fit_def)
    from custom_fit_loop_stop_last [OF this]
    show "\<exists>out. printed sf = printed si @ out
          \<and> (StoppedEarly \<in> set out
               \<longrightarrow> (\<exists>out'. out = out' @ [StoppedEarly] \<and> StoppedEarly \<notin> set out'))"
      by (auto split: if_splits)
  qed
qed


lemma halting_epoch_eval:
  "map_sum id fst (custom_fit_train_eval (rising_model 2 2 None) [] [] [] [] None None 2
      (scenario_state\<lparr>weights := 1, last_eval_res := [2]\<rparr>)) = Inr (Some [(''group_auc'', 3)])"
  by code_simp

lemma halting_runs:
  "map_sum id (\<lambda>s. (current_epoch s, weights s, printed s))
     (custom_fit_loop (rising_model 2 2 None) [] [] [] [] None None [2, 3]
        (scenario_state\<lparr>weights := 1, last_eval_res := [2]\<rparr>)) =
   Inr (2, 2, [EpochInfo 2 1 (Some [(''group_auc'', 3)]) None, StoppedEarly])"
  "map_sum id (\<lambda>s. (current_epoch s, weights s, printed s))
     (custom_fit (rising_model 2 2 None) [] [] [] [] None None scenario_state) =
   Inr (2, 2, [EpochInfo 1 1 (Some [(''group_auc'', 2)]) None,
               EpochInfo 2 1 (Some [(''group_auc'', 3)]) None, StoppedEarly])"
  by code_simp+

theorem early_stopping_transitions_witness:
  "use_early_stopping (hparams (rising_model 2 2 None)) = Some True
   \<and> early_stopping_start_from_epoch (hparams (rising_model 2 2 None)) \<le> 2
   \<and> map_of [(''group_auc'', 3 :: real)] (early_stopping_metric (hparams (rising_model 2 2 None)))
        = Some 3
   \<and> last_eval_res (scenario_state\<lparr>weights := 1, last_eval_res := [2]\<rparr>) \<noteq> []
   \<and> (3 :: real) < Min (set (last_eval_res (scenario_state\<lparr>weights := 1, last_eval_res := [2]\<rparr>)))
                     + early_stopping_delta (hparams (rising_model 2 2 None))
   \<and> use_fine_step (hparams (rising_model 2 2 None)) \<noteq> Some True
   \<and> (\<exists>s5. custom_fit_train_eval (rising_model 2 2 None) [] [] [] [] None None 2
              (scenario_state\<lparr>weights := 1, last_eval_res := [2]\<rparr>) =
             Inr (Some [(''group_auc'', 3)], s5)
          \<and> custom_fit_loop (rising_model 2 2 None) [] [] [] [] None None [2, 3]
              (scenario_state\<lparr>weights := 1, last_eval_res := [2]\<rparr>) =
             Inr (s5\<lparr>printed := printed s5 @ [StoppedEarly]\<rparr>))
   \<and> map_sum id (\<lambda>s. (current_epoch s, weights s, printed s))
        (custom_fit_loop (rising_model 2 2 None) [] [] [] [] None None [2, 3]
           (scenario_state\<lparr>weights := 1, last_eval_res := [2]\<rparr>)) =
      Inr (2, 2, [EpochInfo 2 1 (Some [(''group_auc'', 3)]) None, StoppedEarly])
   \<and> map_sum id (\<lambda>s. (current_epoch s, weights s, printed s))
        (custom_fit (rising_model 2 2 None) [] [] [] [] None None scenario_state) =
      Inr (2, 2, [EpochInfo 1 1 (Some [(''group_auc'', 2)]) None,
                  EpochInfo 2 1 (Some [(''group_auc'', 3)]) None, StoppedEarly])"
proof -
  let ?m = "rising_model 2 2 None"
  let ?s = "scenario_state\<lparr>weights := 1, last_eval_res := [2]\<rparr>"
  have h: "use_early_stopping (hparams ?m) = Some True"
    "early_stopping_start_from_epoch (hparams ?m) \<le> 2"
    "map_of [(''group_auc'', 3 :: real)] (early_stopping_metric (hparams ?m)) = Some 3"
    "last_eval_res ?s \<noteq> []"
    "(3 :: real) < Min (set (last_eval_res ?s)) + early_stopping_delta (hparams ?m)"
    "use_fine_step (hparams ?m) \<noteq> Some True"
    by (simp_all add: rising_model_def policy_hparams_def)
  from halting_epoch_eval obtain s5 where
    te: "custom_fit_train_eval ?m [] [] [] [] None None 2 ?s =
           Inr (Some [(''group_auc'', 3)], s5)"
    by (cases "custom_fit_train_eval ?m [] [] [] [] None None 2 ?s") auto
  note t = early_stopping_transitions [where m = ?m and epoch' = 2 and s = ?s
      and res' = "[(''group_auc'', 3)]" and sa = s5 and v' = 3 and rest = "[3]"
      and tn = "[]" and tb = "[]" and vn = "[]" and vb = "[]" and tf = None and cp = None,
      THEN conjunct2, THEN conjunct1]
  from t h te have "custom_fit_loop ?m [] [] [] [] None None [2, 3] ?s =
      Inr (s5\<lparr>printed := printed s5 @ [StoppedEarly]\<rparr>)"
    by blast
  with te have "\<exists>s5. custom_fit_train_eval ?m [] [] [] [] None None 2 ?s =
             Inr (Some [(''group_auc'', 3)], s5)
          \<and> custom_fit_loop ?m [] [] [] [] None None [2, 3] ?s =
             Inr (s5\<lparr>printed := printed s5 @ [StoppedEarly]\<rparr>)"
    by blast
  with h halting_runs show ?thesis by blast
qed

text \<open>
  Claim C4 as stated fails in two places. The rate is not scaled on a plateau: on a
  second plateau before the fine-step epoch the current rate is already 1/10 and stays
  1/10, in the callback alone and in a whole run that prints the fine-tuning message
  twice. And with an empty history the guard does not decide about a plateau: it raises.
\<close>

theorem second_plateau_counterexample:
  "map_sum id (\<lambda>fl. (optimizer_learning_rate (state_of fl), printed (state_of fl)))
     (early_stopping (hparams twice_tuned_model) 3 (Some [(''group_auc'', 4)])
        (scenario_state\<lparr>optimizer_learning_rate := 1 / 10, last_eval_res := [2, 3]\<rparr>)) =
   Inr (1 / 10, [GoingToFineTuning])
   \<and> (1 / 10 :: real) \<noteq> 1 / 10 * fine_step_factor (hparams twice_tuned_model)
   \<and> map_sum id (\<lambda>s. (optimizer_learning_rate s, printed s))
        (custom_fit twice_tuned_model [] [] [] [] None None scenario_state) =
      Inr (1 / 10,
           [EpochInfo 1 1 (Some [(''group_auc'', 2)]) None,
            EpochInfo 2 1 (Some [(''group_auc'', 3)]) None, GoingToFineTuning,
            EpochInfo 3 1 (Some [(''group_auc'', 4)]) None, GoingToFineTuning])
   \<and> map_sum id (\<lambda>fl. ())
        (early_stopping (policy_hparams 2 1 None) 1 (Some [(''group_auc'', 2)]) scenario_state) =
      Inl ValueError"
  by code_simp

section \<open>The stopping history\<close>

lemma update_history_bound:
  assumes "update_history hp v st = Inr st'"
    and "int (length (last_eval_res st)) \<le> early_stopping_patience hp"
  shows "int (length (last_eval_res st')) \<le> early_stopping_patience hp"
proof -
  note e = update_history_effect [OF assms(1)]
  show ?thesis
  proof (cases "early_stopping_patience hp \<le> int (length (last_eval_res st))")
    case True
    with e have "last_eval_res st \<noteq> []" by simp
    then have "length (tl (last_eval_res st) @ [v]) = length (last_eval_res st)"
      by (cases "last_eval_res st") simp_all
    with e True assms(2) show ?thesis by simp
  next
    case False
    with e show ?thesis by simp
  qed
qed

lemma early_stopping_bound:
  assumes "early_stopping hp epoch eval_res st = Inr fl"
    and "int (length (last_eval_res st)) \<le> early_stopping_patience hp"
  shows "int (length (last_eval_res (state_of fl))) \<le> early_stopping_patience hp"
proof (cases "use_early_stopping hp = Some True")
  case False
  with assms show ?thesis by (auto simp: early_stopping_def)
next
  case True
  from True assms(1) show ?thesis
  proof (cases rule: early_stopping_cases)
    case (stop res v)
    with assms(2) show ?thesis by simp
  next
    case (tune res v st')
    from update_history_bound [OF tune(6)] assms(2) tune(7) show ?thesis by simp
  next
    case (go res v st')
    from update_history_bound [OF go(4)] assms(2) go(5) show ?thesis by simp
  qed
qed

lemma custom_fit_epoch_bound:
  assumes "custom_fit_epoch m tn tb vn vb tf cp epoch st = Inr fl"
    and "int (length (last_eval_res st)) \<le> early_stopping_patience (hparams m)"
  shows "int (length (last_eval_res (state_of fl))) \<le> early_stopping_patience (hparams m)"
proof -
  from assms(1) obtain eval_res st5 where
    te: "custom_fit_train_eval m tn tb vn vb tf cp epoch st = Inr (eval_res, st5)"
    and es: "early_stopping (hparams m) epoch eval_res st5 = Inr fl"
    by (rule custom_fit_epoch_split)
  from train_eval_effect [OF te, of "hparams m"] have "last_eval_res st5 = last_eval_res st"
    by simp
  with early_stopping_bound [OF es] assms(2) show ?thesis by simp
qed

lemma custom_fit_loop_bound:
  assumes "custom_fit_loop m tn tb vn vb tf cp es st = Inr st'"
    and "int (length (last_eval_res st)) \<le> early_stopping_patience (hparams m)"
  shows "int (length (last_eval_res st')) \<le> early_stopping_patience (hparams m)"
  using assms
proof (induction es arbitrary: st)
  case Nil
  then show ?case by simp
next
  case (Cons epoch rest)
  from Cons.prems(1) show ?case
  proof (cases rule: custom_fit_loop_Cons)
    case return
    from custom_fit_epoch_bound [OF return Cons.prems(2)] show ?thesis by simp
  next
    case (continue st1)
    from custom_fit_epoch_bound [OF continue(1) Cons.prems(2)]
    have "int (length (last_eval_res st1)) \<le> early_stopping_patience (hparams m)" by simp
    from Cons.IH [OF continue(2) this] show ?thesis .
  qed
qed

text \<open>
  Claim C6. With early stopping enabled and a patience that is not negative, the
  history is never longer than the patience at the end of a run, and every epoch keeps
  that bound, so it holds throughout. An epoch that continues drops the oldest entry
  when the length has reached the patience and then appends the current value of the
  monitored metric; an epoch that stops leaves the history as it was.
\<close>

theorem stopping_history_bounded_fifo:
  "(use_early_stopping (hparams m) = Some True \<and> 0 \<le> early_stopping_patience (hparams m)
      \<and> custom_fit m tn tb vn vb tf cp s = Inr s'
      \<longrightarrow> int (length (last_eval_res s')) \<le> early_stopping_patience (hparams m))
   \<and> (custom_fit_epoch m tn tb vn vb tf cp epoch st = Inr fl
      \<and> int (length (last_eval_res st)) \<le> early_stopping_patience (hparams m)
      \<longrightarrow> int (length (last_eval_res (state_of fl))) \<le> early_stopping_patience (hparams m))
   \<and> (use_early_stopping hp = Some True
      \<and> early_stopping hp epoch eval_res st = Inr (Continue st')
      \<longrightarrow> (\<exists>res v. eval_res = Some res \<and> map_of res (early_stopping_metric hp) = Some v
            \<and> last_eval_res st' =
                (if early_stopping_patience hp \<le> int (length (last_eval_res st))
                 then tl (last_eval_res st) else last_eval_res st) @ [v]))
   \<and> (early_stopping hp epoch eval_res st = Inr (Return st')
      \<longrightarrow> last_eval_res st' = last_eval_res st)"
proof (intro conjI impI; (elim conjE)?)
  assume a: "use_early_stopping (hparams m) = Some True"
    "0 \<le> early_stopping_patience (hparams m)"
    "custom_fit m tn tb vn vb tf cp s = Inr s'"
  from a(1) a(3) have "custom_fit_loop m tn tb vn vb tf cp [1 .. epochs (hparams m)]
      (s\<lparr>last_eval_res := []\<rparr>) = Inr s'"
    by (simp add: custom_fit_def)
  from custom_fit_loop_bound [OF this] a(2)
  show "int (length (last_eval_res s')) \<le> early_stopping_patience (hparams m)" by simp
next
  assume "custom_fit_epoch m tn tb vn vb tf cp epoch st = Inr fl"
    "int (length (last_eval_res st)) \<le> early_stopping_patience (hparams m)"
  then show "int (length (last_eval_res (state_of fl))) \<le> early_stopping_patience (hparams m)"
    by (rule custom_fit_epoch_bound)
next
  assume a: "use_early_stopping hp = Some True"
    "early_stopping hp epoch eval_res st = Inr (Continue st')"
  from a show "\<exists>res v. eval_res = Some res \<and> map_of res (early_stopping_metric hp) = Some v
            \<and> last_eval_res st' =
                (if early_stopping_patience hp \<le> int (length (last_eval_res st))
                 then tl (last_eval_res st) else last_eval_res st) @ [v]"
  proof (cases rule: early_stopping_cases)
    case (stop res v)
    then show ?thesis by simp
  next
    case (tune res v st'')
    from update_history_effect [OF tune(6)] tune(1,2,7) show ?thesis by simp
  next
    case (go res v st'')
    from update_history_effect [OF go(4)] go(1,2,5) show ?thesis by simp
  qed
next
  assume a: "early_stopping hp epoch eval_res st = Inr (Return st')"
  show "last_eval_res st' = last_eval_res st"
  proof (cases "use_early_stopping hp = Some True")
    case False
    with a show ?thesis by (auto simp: early_stopping_def)
  next
    case True
    from True a show ?thesis
      by (cases rule: early_stopping_cases) simp_all
  qed
qed

lemma rising_flat_run:
  "map_sum id (\<lambda>s. (last_eval_res s, monitored (policy_hparams 0 2 None) (printed s),
                    StoppedEarly \<in> set (printed s)))
     (custom_fit (rising_model 0 2 None) [] [] [] [] None None scenario_state) =
   Inr ([3, 4], [2, 3, 4], False)"
  by code_simp

theorem stopping_history_bounded_fifo_witness:
  "use_early_stopping (hparams (rising_model 0 2 None)) = Some True
   \<and> 0 \<le> early_stopping_patience (hparams (rising_model 0 2 None))
   \<and> (\<exists>s'. custom_fit (rising_model 0 2 None) [] [] [] [] None None scenario_state = Inr s'
         \<and> monitored (policy_hparams 0 2 None) (printed s') = [2, 3, 4]
         \<and> last_eval_res s' = [3, 4]
         \<and> int (length (last_eval_res s')) \<le>
             early_stopping_patience (hparams (rising_model 0 2 None)))"
proof -
  have h1: "use_early_stopping (hparams (rising_model 0 2 None)) = Some True"
    and h2: "0 \<le> early_stopping_patience (hparams (rising_model 0 2 None))"
    by (simp_all add: rising_model_def policy_hparams_def)
  from rising_flat_run obtain s' where
    r: "custom_fit (rising_model 0 2 None) [] [] [] [] None None scenario_state = Inr s'"
    and v: "last_eval_res s' = [3, 4]"
      "monitored (policy_hparams 0 2 None) (printed s') = [2, 3, 4]"
    by (cases "custom_fit (rising_model 0 2 None) [] [] [] [] None None scenario_state") auto
  from stopping_history_bounded_fifo [of "rising_model 0 2 None" "[]" "[]" "[]" "[]" None None
      scenario_state s'] h1 h2 r
  have "int (length (last_eval_res s')) \<le> early_stopping_patience (hparams (rising_model 0 2 None))"
    by blast
  with h1 h2 r v show ?thesis by blast
qed

section \<open>The guard on an empty history\<close>

lemma early_stopping_ValueError:
  assumes "early_stopping hp epoch eval_res st = Inl ValueError"
  shows "last_eval_res st = []"
proof (rule ccontr)
  assume ne: "last_eval_res st \<noteq> []"
  have es: "use_early_stopping hp = Some True"
    using assms by (auto simp: early_stopping_def split: if_splits)
  from assms es obtain res where res: "eval_res = Some res"
    by (cases eval_res) (auto simp: early_stopping_def rbind_def)
  from assms es res obtain v where v: "map_of res (early_stopping_metric hp) = Some v"
    by (cases "map_of res (early_stopping_metric hp)")
      (auto simp: early_stopping_def rbind_def lookup_def)
  have "\<exists>b. plateau hp epoch v (last_eval_res st) = Inr b"
    using ne by (auto simp: plateau_def)
  then obtain b where p: "plateau hp epoch v (last_eval_res st) = Inr b" ..
  let ?tuned = "st\<lparr>printed := printed st @ [GoingToFineTuning],
                   optimizer_learning_rate := learning_rate hp * fine_step_factor hp\<rparr>"
  have ne': "last_eval_res ?tuned \<noteq> []" using ne by simp
  from assms [unfolded res early_stopping_unfold [OF es v p]] show False
    by (simp add: update_history_nonempty [OF ne] update_history_nonempty [OF ne'] rbind_def
        split: if_splits)
qed

lemma early_stopping_empty_history:
  assumes "use_early_stopping hp = Some True"
    and "map_of res (early_stopping_metric hp) = Some v"
    and "last_eval_res st = []"
  shows "early_stopping hp epoch (Some res) st =
           (if early_stopping_start_from_epoch hp \<le> epoch then Inl ValueError
            else rbind (update_history hp v st) (\<lambda>st'. Inr (Continue st')))"
  using assms by (simp add: early_stopping_def rbind_def lookup_def plateau_def)

lemma early_stopping_leaves_history:
  assumes "use_early_stopping hp = Some True"
    and "early_stopping hp epoch eval_res st = Inr (Continue st')"
  shows "last_eval_res st' \<noteq> []"
  using assms
proof (cases rule: early_stopping_cases)
  case (stop res v)
  then show ?thesis by simp
next
  case (tune res v st'')
  from update_history_effect [OF tune(6)] tune(7) show ?thesis by simp
next
  case (go res v st'')
  from update_history_effect [OF go(4)] go(5) show ?thesis by simp
qed

text \<open>
  Claim C9. With early stopping enabled and an empty history, the callback raises
  \<^verbatim>\<open>ValueError\<close> (the \<^verbatim>\<open>min\<close> of an empty deque) as soon as the start epoch is reached,
  and does not evaluate the minimum before. A callback that continues leaves a history
  that is not empty, and with a history that is not empty it never raises that error:
  so the guard meets an empty history in the first epoch only. For a whole run whose
  first epoch trains and evaluates without error and reports the monitored metric:
  with a start epoch of at most 1 the run aborts with \<^verbatim>\<open>ValueError\<close>; with a later start
  epoch the first callback only records the value.
\<close>

theorem empty_history_guard_raises:
  "(use_early_stopping hp = Some True \<and> map_of res (early_stopping_metric hp) = Some v
      \<and> last_eval_res st = []
      \<longrightarrow> early_stopping hp epoch (Some res) st =
            (if early_stopping_start_from_epoch hp \<le> epoch then Inl ValueError
             else rbind (update_history hp v st) (\<lambda>st'. Inr (Continue st'))))
   \<and> (use_early_stopping hp = Some True
      \<and> early_stopping hp epoch eval_res st = Inr (Continue st')
      \<longrightarrow> last_eval_res st' \<noteq> [])
   \<and> (last_eval_res st \<noteq> [] \<longrightarrow> early_stopping hp epoch eval_res st \<noteq> Inl ValueError)
   \<and> (use_early_stopping (hparams m) = Some True \<and> 1 \<le> epochs (hparams m)
      \<and> custom_fit_train_eval m tn tb vn vb tf cp 1 (s\<lparr>last_eval_res := []\<rparr>) =
           Inr (Some res', s5)
      \<and> map_of res' (early_stopping_metric (hparams m)) = Some v'
      \<longrightarrow> (early_stopping_start_from_epoch (hparams m) \<le> 1
             \<longrightarrow> custom_fit m tn tb vn vb tf cp s = Inl ValueError)
          \<and> (1 < early_stopping_start_from_epoch (hparams m)
             \<longrightarrow> custom_fit_epoch m tn tb vn vb tf cp 1 (s\<lparr>last_eval_res := []\<rparr>) =
                   rbind (update_history (hparams m) v' s5) (\<lambda>st'. Inr (Continue st'))))"
proof (intro conjI impI; (elim conjE)?)
  assume "use_early_stopping hp = Some True" "map_of res (early_stopping_metric hp) = Some v"
    "last_eval_res st = []"
  then show "early_stopping hp epoch (Some res) st =
            (if early_stopping_start_from_epoch hp \<le> epoch then Inl ValueError
             else rbind (update_history hp v st) (\<lambda>st'. Inr (Continue st')))"
    by (rule early_stopping_empty_history)
next
  assume "use_early_stopping hp = Some True"
    "early_stopping hp epoch eval_res st = Inr (Continue st')"
  then show "last_eval_res st' \<noteq> []" by (rule early_stopping_leaves_history)
next
  assume "last_eval_res st \<noteq> []"
  then show "early_stopping hp epoch eval_res st \<noteq> Inl ValueError"
    using early_stopping_ValueError by blast
next
  assume a: "use_early_stopping (hparams m) = Some True" "1 \<le> epochs (hparams m)"
    "custom_fit_train_eval m tn tb vn vb tf cp 1 (s\<lparr>last_eval_res := []\<rparr>) = Inr (Some res', s5)"
    "map_of res' (early_stopping_metric (hparams m)) = Some v'"
    "early_stopping_start_from_epoch (hparams m) \<le> 1"
  from train_eval_effect [OF a(3), of "hparams m"] have e: "last_eval_res s5 = []" by simp
  have ep: "custom_fit_epoch m tn tb vn vb tf cp 1 (s\<lparr>last_eval_res := []\<rparr>) = Inl ValueError"
    using a early_stopping_empty_history [OF a(1) a(4) e, of 1]
    by (simp add: custom_fit_epoch_def rbind_def)
  have "[1 .. epochs (hparams m)] = 1 # [2 .. epochs (hparams m)]"
    using a(2) by (simp add: upto_rec1)
  then show "custom_fit m tn tb vn vb tf cp s = Inl ValueError"
    using a(1) ep by (simp add: custom_fit_def)
next
  assume a: "use_early_stopping (hparams m) = Some True" "1 \<le> epochs (hparams m)"
    "custom_fit_train_eval m tn tb vn vb tf cp 1 (s\<lparr>last_eval_res := []\<rparr>) = Inr (Some res', s5)"
    "map_of res' (early_stopping_metric (hparams m)) = Some v'"
    "1 < early_stopping_start_from_epoch (hparams m)"
  from train_eval_effect [OF a(3), of "hparams m"] have e: "last_eval_res s5 = []" by simp
  show "custom_fit_epoch m tn tb vn vb tf cp 1 (s\<lparr>last_eval_res := []\<rparr>) =
        rbind (update_history (hparams m) v' s5) (\<lambda>st'. Inr (Continue st'))"
    using a early_stopping_empty_history [OF a(1) a(4) e, of 1]
    by (simp add: custom_fit_epoch_def rbind_def)
qed

lemma rising_first_epoch:
  "map_sum id fst (custom_fit_train_eval (rising_model 0 1 None) [] [] [] [] None None 1
      (scenario_state\<lparr>last_eval_res := []\<rparr>)) = Inr (Some [(''group_auc'', 2)])"
  by code_simp

theorem empty_history_guard_raises_witness:
  "use_early_stopping (hparams (rising_model 0 1 None)) = Some True
   \<and> 1 \<le> epochs (hparams (rising_model 0 1 None))
   \<and> early_stopping_start_from_epoch (hparams (rising_model 0 1 None)) \<le> 1
   \<and> map_sum id fst (custom_fit_train_eval (rising_model 0 1 None) [] [] [] [] None None 1
        (scenario_state\<lparr>last_eval_res := []\<rparr>)) = Inr (Some [(''group_auc'', 2)])
   \<and> map_of [(''group_auc'', 2 :: real)] (early_stopping_metric (hparams (rising_model 0 1 None)))
        = Some 2
   \<and> custom_fit (rising_model 0 1 None) [] [] [] [] None None scenario_state = Inl ValueError"
proof -
  have h: "use_early_stopping (hparams (rising_model 0 1 None)) = Some True"
    "1 \<le> epochs (hparams (rising_model 0 1 None))"
    "early_stopping_start_from_epoch (hparams (rising_model 0 1 None)) \<le> 1"
    "map_of [(''group_auc'', 2 :: real)] (early_stopping_metric (hparams (rising_model 0 1 None)))
        = Some 2"
    by (simp_all add: rising_model_def policy_hparams_def)
  from rising_first_epoch obtain s5 where
    r: "custom_fit_train_eval (rising_model 0 1 None) [] [] [] [] None None 1
          (scenario_state\<lparr>last_eval_res := []\<rparr>) = Inr (Some [(''group_auc'', 2)], s5)"
    by (cases "custom_fit_train_eval (rising_model 0 1 None) [] [] [] [] None None 1
          (scenario_state\<lparr>last_eval_res := []\<rparr>)") auto
  from empty_history_guard_raises [of _ _ _ _ _ _ _ "rising_model 0 1 None" "[]" "[]" "[]" "[]"
      None None scenario_state "[(''group_auc'', 2)]" s5 2] h r
  have "custom_fit (rising_model 0 1 None) [] [] [] [] None None scenario_state = Inl ValueError"
    by blast
  with h rising_first_epoch show ?thesis by blast
qed


section \<open>A rising metric\<close>

lemma monitored_append: "monitored hp (a @ b) = monitored hp a @ monitored hp b"
  by (simp add: monitored_def)

lemma monitored_EpochInfo:
  assumes "map_of res (early_stopping_metric hp) = Some v"
  shows "monitored hp [EpochInfo epoch avg (Some res) tr] = [v]"
  using assms by (simp add: monitored_def)

lemma plateau_True:
  assumes "plateau hp epoch v h = Inr True"
  shows "h \<noteq> [] \<and> v < Min (set h) + early_stopping_delta hp"
  using assms by (auto simp: plateau_def min_list_Min split: if_splits)

lemma update_history_set:
  assumes "update_history hp v st = Inr st'"
  shows "set (last_eval_res st') \<subseteq> insert v (set (last_eval_res st))"
proof -
  have "set (tl (last_eval_res st)) \<subseteq> set (last_eval_res st)"
    by (cases "last_eval_res st") auto
  with update_history_effect [OF assms] show ?thesis
    by (cases "early_stopping_patience hp \<le> int (length (last_eval_res st))") auto
qed

lemma custom_fit_epoch_rising:
  assumes es: "use_early_stopping (hparams m) = Some True"
    and delta: "early_stopping_delta (hparams m) \<le> 0"
    and run: "custom_fit_epoch m tn tb vn vb tf cp epoch st = Inr fl"
    and inv: "set (last_eval_res st) \<subseteq> set (monitored (hparams m) (printed st))"
    and sorted: "sorted_wrt (<) (monitored (hparams m) (printed (state_of fl)))"
  shows "\<exists>st' out. fl = Continue st'
           \<and> set (last_eval_res st') \<subseteq> set (monitored (hparams m) (printed st'))
           \<and> printed st' = printed st @ out \<and> StoppedEarly \<notin> set out
           \<and> length (monitored (hparams m) out) = 1"
proof -
  let ?hp = "hparams m"
  from run obtain eval_res st5 where
    te: "custom_fit_train_eval m tn tb vn vb tf cp epoch st = Inr (eval_res, st5)"
    and cb: "early_stopping ?hp epoch eval_res st5 = Inr fl"
    by (rule custom_fit_epoch_split)
  from train_eval_effect [OF te, of ?hp] obtain out1 avg tr where
    h5: "last_eval_res st5 = last_eval_res st"
    and p5: "printed st5 = printed st @ out1 @ [EpochInfo epoch avg eval_res tr]"
    and m1: "monitored ?hp out1 = []" and s1: "StoppedEarly \<notin> set out1"
    by blast
  from es cb show ?thesis
  proof (cases rule: early_stopping_cases)
    case (stop res v)
    from plateau_True [OF stop(3)] have ne: "last_eval_res st \<noteq> []"
      and lt: "v < Min (set (last_eval_res st)) + early_stopping_delta ?hp"
      using h5 by simp_all
    have mon: "monitored ?hp (printed (state_of fl)) = monitored ?hp (printed st) @ [v]"
      using stop p5 m1 monitored_EpochInfo [OF stop(2)]
      by (simp add: monitored_append) (simp add: monitored_def)
    have "Min (set (last_eval_res st)) \<in> set (last_eval_res st)"
      using ne by (intro Min_in) simp_all
    with inv have "Min (set (last_eval_res st)) \<in> set (monitored ?hp (printed st))" by blast
    with sorted mon have "Min (set (last_eval_res st)) < v"
      by (simp add: sorted_wrt_append)
    with lt delta show ?thesis by simp
  next
    case (tune res v st')
    let ?out = "out1 @ [EpochInfo epoch avg eval_res tr] @ [GoingToFineTuning]"
    from update_history_effect [OF tune(6)]
    have p: "printed st' = printed st @ ?out" using p5 by simp
    have mo: "monitored ?hp ?out = [v]"
      using m1 monitored_EpochInfo [OF tune(2)] tune(1)
      by (simp add: monitored_append) (simp add: monitored_def)
    from update_history_set [OF tune(6)] h5 inv
    have "set (last_eval_res st') \<subseteq> set (monitored ?hp (printed st'))"
      using p mo by (auto simp: monitored_append)
    moreover have "StoppedEarly \<notin> set ?out" using s1 by simp
    ultimately show ?thesis using tune(7) p mo by (metis length_Cons list.size(3) One_nat_def)
  next
    case (go res v st')
    let ?out = "out1 @ [EpochInfo epoch avg eval_res tr]"
    from update_history_effect [OF go(4)]
    have p: "printed st' = printed st @ ?out" using p5 by simp
    have mo: "monitored ?hp ?out = [v]"
      using m1 monitored_EpochInfo [OF go(2)] go(1)
      by (simp add: monitored_append)
    from update_history_set [OF go(4)] h5 inv
    have "set (last_eval_res st') \<subseteq> set (monitored ?hp (printed st'))"
      using p mo by (auto simp: monitored_append)
    moreover have "StoppedEarly \<notin> set ?out" using s1 by simp
    ultimately show ?thesis using go(5) p mo by (metis length_Cons list.size(3) One_nat_def)
  qed
qed

lemma custom_fit_loop_rising:
  assumes es: "use_early_stopping (hparams m) = Some True"
    and delta: "early_stopping_delta (hparams m) \<le> 0"
    and run: "custom_fit_loop m tn tb vn vb tf cp epochs' st = Inr st'"
    and inv: "set (last_eval_res st) \<subseteq> set (monitored (hparams m) (printed st))"
    and sorted: "sorted_wrt (<) (monitored (hparams m) (printed st'))"
  shows "\<exists>out. printed st' = printed st @ out \<and> StoppedEarly \<notin> set out
           \<and> length (monitored (hparams m) out) = length epochs'"
  using run inv
proof (induction epochs' arbitrary: st)
  case Nil
  then have "printed st' = printed st @ []" by simp
  then show ?case by (metis empty_iff empty_set list.size(3) monitored_append self_append_conv)
next
  case (Cons epoch rest)
  from Cons.prems(1) show ?case
  proof (cases rule: custom_fit_loop_Cons)
    case return
    from custom_fit_epoch_rising [OF es delta return Cons.prems(2)] sorted
    show ?thesis by simp
  next
    case (continue st1)
    from custom_fit_loop_rate [OF continue(2)] obtain out' where
      "printed st' = printed st1 @ out'" by blast
    with sorted have "sorted_wrt (<) (monitored (hparams m) (printed st1))"
      by (simp add: monitored_append sorted_wrt_append)
    with custom_fit_epoch_rising [OF es delta continue(1) Cons.prems(2)] obtain out1 where
      a: "set (last_eval_res st1) \<subseteq> set (monitored (hparams m) (printed st1))"
      "printed st1 = printed st @ out1" "StoppedEarly \<notin> set out1"
      "length (monitored (hparams m) out1) = 1"
      by auto
    from Cons.IH [OF continue(2) a(1)] obtain out2 where
      b: "printed st' = printed st1 @ out2" "StoppedEarly \<notin> set out2"
      "length (monitored (hparams m) out2) = length rest"
      by blast
    have "printed st' = printed st @ (out1 @ out2)" using a b by simp
    moreover have "StoppedEarly \<notin> set (out1 @ out2)" using a b by simp
    moreover have "length (monitored (hparams m) (out1 @ out2)) = length (epoch # rest)"
      using a b by (simp add: monitored_append)
    ultimately show ?thesis by blast
  qed
qed

text \<open>
  Claim C5, as amended. With early stopping enabled and a delta that is not positive,
  a run that returns and whose reported values of the monitored metric increase strictly
  has not been halted by the stopping policy: it printed no stop message and reported
  the metric once for each of its epochs. This holds for any patience and start epoch.
\<close>

theorem rising_metric_never_stops:
  assumes "use_early_stopping (hparams m) = Some True"
    and "early_stopping_delta (hparams m) \<le> 0"
    and "custom_fit m tn tb vn vb tf cp st = Inr st'"
    and "sorted_wrt (<) (monitored (hparams m) (printed st'))"
  shows "\<exists>out. printed st' = printed st @ out \<and> StoppedEarly \<notin> set out
           \<and> length (monitored (hparams m) out) = nat (epochs (hparams m))"
proof -
  from assms(1,3) have run: "custom_fit_loop m tn tb vn vb tf cp [1 .. epochs (hparams m)]
      (st\<lparr>last_eval_res := []\<rparr>) = Inr st'"
    by (simp add: custom_fit_def)
  have inv: "set (last_eval_res (st\<lparr>last_eval_res := []\<rparr>)) \<subseteq>
      set (monitored (hparams m) (printed (st\<lparr>last_eval_res := []\<rparr>)))"
    by simp
  from custom_fit_loop_rising [OF assms(1,2) run inv assms(4)] show ?thesis
    by simp
qed

theorem rising_metric_never_stops_witness:
  "use_early_stopping (hparams (rising_model 0 2 None)) = Some True
   \<and> early_stopping_delta (hparams (rising_model 0 2 None)) \<le> 0
   \<and> (\<exists>s'. custom_fit (rising_model 0 2 None) [] [] [] [] None None scenario_state = Inr s'
         \<and> monitored (hparams (rising_model 0 2 None)) (printed s') = [2, 3, 4]
         \<and> sorted_wrt (<) (monitored (hparams (rising_model 0 2 None)) (printed s'))
         \<and> StoppedEarly \<notin> set (printed s'))"
proof -
  have hp: "hparams (rising_model 0 2 None) = policy_hparams 0 2 None"
    by (simp add: rising_model_def)
  have h1: "use_early_stopping (hparams (rising_model 0 2 None)) = Some True"
    and h2: "early_stopping_delta (hparams (rising_model 0 2 None)) \<le> 0"
    by (simp_all add: rising_model_def policy_hparams_def)
  from rising_flat_run obtain s' where
    r: "custom_fit (rising_model 0 2 None) [] [] [] [] None None scenario_state = Inr s'"
    and v: "monitored (hparams (rising_model 0 2 None)) (printed s') = [2, 3, 4]"
    unfolding hp
    by (cases "custom_fit (rising_model 0 2 None) [] [] [] [] None None scenario_state") auto
  have s: "sorted_wrt (<) (monitored (hparams (rising_model 0 2 None)) (printed s'))"
    unfolding v by simp
  from rising_metric_never_stops [OF h1 h2 r s] obtain out where
    "printed s' = printed scenario_state @ out" "StoppedEarly \<notin> set out"
    by blast
  then have "StoppedEarly \<notin> set (printed s')" by (simp add: scenario_state_def)
  with h1 h2 r v s show ?thesis by blast
qed

text \<open>
  Claim C5 as stated fails for a positive delta: with delta 2, start epoch 2 and
  patience 2 the metric values 2 and 3 rise strictly, yet 3 is below 2 + 2 and the run
  of three epochs is halted by the stopping policy in epoch 2.
\<close>

theorem rising_metric_stops_counterexample:
  "use_early_stopping (hparams (rising_model 2 2 None)) = Some True
   \<and> epochs (hparams (rising_model 2 2 None)) = 3
   \<and> map_sum id (\<lambda>s. (monitored (hparams (rising_model 2 2 None)) (printed s),
                      sorted_wrt (<) (monitored (hparams (rising_model 2 2 None)) (printed s)),
                      current_epoch s, StoppedEarly \<in> set (printed s)))
       (custom_fit (rising_model 2 2 None) [] [] [] [] None None scenario_state) =
     Inr ([2, 3], True, 2, True)"
  by code_simp

section \<open>The training pass of an epoch\<close>







section \<open>Fast and slow evaluation agree\<close>

lemma run_slow_eval_loop_result:
  "run_slow_eval_loop m st bs preds labels imp_indexes =
     (preds @ concat (map (\<lambda>b. scorer_predict_on_batch (net m) (weights st) (batch_input b)) bs),
      labels @ concat (map batch_label bs),
      imp_indexes @ concat (map impression_index_batch bs))"
  by (induction bs arbitrary: preds labels imp_indexes) (simp_all add: eval_batch_def)

lemma bucket_map:
  "bucket (map f rows) (map g rows) k = map f (filter (\<lambda>r. g r = k) rows)"
  by (induction rows) (simp_all add: bucket_def)

lemma rows_of_key: "r \<in> set (rows_of feature imp) \<Longrightarrow> snd (snd r) = impr_key imp"
  by (auto simp: rows_of_def)

lemma filter_rows_of:
  "filter (\<lambda>r. snd (snd r) = k) (rows_of feature imp) =
     (if impr_key imp = k then rows_of feature imp else [])"
proof (cases "impr_key imp = k")
  case True
  then have "filter (\<lambda>r. snd (snd r) = k) (rows_of feature imp) = rows_of feature imp"
    by (intro filter_True) (simp add: rows_of_key)
  with True show ?thesis by simp
next
  case False
  then have "filter (\<lambda>r. snd (snd r) = k) (rows_of feature imp) = []"
    by (intro filter_False) (simp add: rows_of_key)
  with False show ?thesis by simp
qed

lemma filter_pair_rows:
  assumes "distinct (map impr_key imps)" and "imp \<in> set imps"
  shows "filter (\<lambda>r. snd (snd r) = impr_key imp) (pair_rows feature imps) = rows_of feature imp"
  using assms
proof (induction imps)
  case Nil
  then show ?case by simp
next
  case (Cons a imps)
  show ?case
  proof (cases "a = imp")
    case True
    with Cons.prems have "impr_key imp \<notin> impr_key ` set imps" by simp
    then have "\<forall>x \<in> set imps. impr_key x \<noteq> impr_key imp" by (metis imageI)
    then have "filter (\<lambda>r. snd (snd r) = impr_key imp) (pair_rows feature imps) = []"
      by (auto simp: pair_rows_def filter_concat filter_rows_of o_def)
    with True show ?thesis
      by (simp add: pair_rows_def filter_rows_of)
  next
    case False
    with Cons.prems have in': "imp \<in> set imps" and "impr_key a \<noteq> impr_key imp"
      and d: "distinct (map impr_key imps)" by auto
    with Cons.IH [OF d in'] show ?thesis
      by (simp add: pair_rows_def filter_rows_of)
  qed
qed


lemma keys_pair_rows:
  assumes "\<forall>imp \<in> set imps. impr_news imp \<noteq> [] \<and> length (impr_label imp) = length (impr_news imp)"
  shows "set (map (snd \<circ> snd) (pair_rows feature imps)) = set (map impr_key imps)"
proof -
  have "set (map (snd \<circ> snd) (rows_of feature imp)) = {impr_key imp}" if "imp \<in> set imps" for imp
  proof -
    from assms that have ne: "zip (impr_news imp) (impr_label imp) \<noteq> []"
      by (cases "impr_news imp"; cases "impr_label imp") auto
    then obtain r where "r \<in> set (rows_of feature imp)"
      by (cases "zip (impr_news imp) (impr_label imp)") (auto simp: rows_of_def)
    then have "impr_key imp \<in> (snd \<circ> snd) ` set (rows_of feature imp)"
      using rows_of_key [of r feature imp] by (metis comp_apply imageI)
    moreover have "(snd \<circ> snd) ` set (rows_of feature imp) \<subseteq> {impr_key imp}"
      using rows_of_key [of _ feature imp] by auto
    ultimately show ?thesis by auto
  qed
  then have k: "(snd \<circ> snd) ` set (rows_of feature imp) = {impr_key imp}"
    if "imp \<in> set imps" for imp using that by simp
  have "set (map (snd \<circ> snd) (pair_rows feature imps)) =
      (\<Union>imp \<in> set imps. (snd \<circ> snd) ` set (rows_of feature imp))"
    by (simp add: pair_rows_def image_UN)
  also have "\<dots> = (\<Union>imp \<in> set imps. {impr_key imp})"
    using k by simp
  also have "\<dots> = set (map impr_key imps)" by auto
  finally show ?thesis .
qed

lemma sort_remdups_eq:
  assumes "set xs = set ys" and "distinct ys"
  shows "sort (remdups xs) = sort (ys :: int list)"
proof -
  have "sort (remdups xs) = sorted_list_of_set (set xs)"
    by (simp add: sorted_list_of_set_sort_remdups)
  also have "\<dots> = sorted_list_of_set (set ys)" using assms by simp
  also have "\<dots> = sort (remdups ys)" by (simp add: sorted_list_of_set_sort_remdups)
  also have "\<dots> = sort ys" using assms by (simp add: distinct_remdups_id)
  finally show ?thesis .
qed

lemma labels_rows_of:
  assumes "length (impr_label imp) = length (impr_news imp)"
  shows "map (fst \<circ> snd) (rows_of feature imp) = impr_label imp"
  using assms by (simp add: rows_of_def o_def case_prod_unfold)

lemma inputs_rows_of:
  assumes "length (impr_label imp) = length (impr_news imp)"
  shows "map (f \<circ> fst) (rows_of feature imp) = map (\<lambda>n. f (feature n (impr_key imp))) (impr_news imp)"
proof -
  have "map (f \<circ> fst) (rows_of feature imp) =
      map (\<lambda>n. f (feature n (impr_key imp))) (map fst (zip (impr_news imp) (impr_label imp)))"
    by (simp add: rows_of_def o_def case_prod_unfold)
  with assms show ?thesis by simp
qed


lemma dot_pred_unfold:
  "dot_pred nv uv imp =
     map (\<lambda>n. dot (the (nv n)) (the (uv (impr_key imp)))) (impr_news imp)"
  by (cases imp) (simp add: dot_pred_def impr_key_def impr_news_def)

lemma scorable_news: "scorable nv uv imp \<Longrightarrow> impr_news imp \<noteq> []"
  by (cases imp) (simp add: scorable_def impr_news_def)

lemma zip3_map: "zip ks (zip (map f ks) (map g ks)) = map (\<lambda>k. (k, f k, g k)) ks"
  by (induction ks) simp_all

lemma zip2_map: "zip (map f ks) (map g ks) = map (\<lambda>k. (f k, g k)) ks"
  by (induction ks) simp_all

lemma quick_fields:
  "net (with_quick_scoring q m) = net m"
  "test_iterator (with_quick_scoring q m) = test_iterator m"
  "cal_metric (with_quick_scoring q m) = cal_metric m"
  "metrics (hparams (with_quick_scoring q m)) = metrics (hparams m)"
  "support_quick_scoring (hparams (with_quick_scoring q m)) = q"
  by (simp_all add: with_quick_scoring_def)

lemma run_news_loop_quick:
  "run_news_loop (with_quick_scoring q m) st bs idx vecs = run_news_loop m st bs idx vecs"
  by (induction bs arbitrary: idx vecs)
    (simp_all add: news_def quick_fields split: option.splits)

lemma run_user_loop_quick:
  "run_user_loop (with_quick_scoring q m) st bs idx vecs = run_user_loop m st bs idx vecs"
  by (induction bs arbitrary: idx vecs)
    (simp_all add: user_def quick_fields split: option.splits)

lemma run_news_quick: "run_news (with_quick_scoring q m) st nf = run_news m st nf"
  by (simp add: run_news_def run_news_loop_quick quick_fields split: option.splits)

lemma run_user_quick: "run_user (with_quick_scoring q m) st nf bf = run_user m st nf bf"
  by (simp add: run_user_def run_user_loop_quick quick_fields split: option.splits)

lemma run_fast_eval_quick:
  "run_fast_eval (with_quick_scoring q m) st nf bf = run_fast_eval m st nf bf"
  by (simp add: run_fast_eval_def run_news_quick run_user_quick quick_fields)

lemma run_slow_eval_quick:
  "run_slow_eval (with_quick_scoring q m) st nf bf = run_slow_eval m st nf bf"
  by (simp add: run_slow_eval_def run_slow_eval_loop_result quick_fields)

lemma run_eval_quick:
  "run_eval (with_quick_scoring True m) st nf bf =
     rbind (run_fast_eval m st nf bf)
       (\<lambda>((ks, ls, ps), st'). Inr (cal_metric m ls ps (metrics (hparams m)), st'))"
  "run_eval (with_quick_scoring False m) st nf bf =
     rbind (run_slow_eval m st nf bf)
       (\<lambda>(ks, ls, ps). Inr (cal_metric m ls ps (metrics (hparams m)), st))"
  by (simp_all add: run_eval_def run_fast_eval_quick run_slow_eval_quick quick_fields)

lemma slow_groups:
  assumes data: "same_dataset feature (load_data_from_file (test_iterator m) nf bf) imps"
    and keys: "distinct (map impr_key imps)"
    and wf: "\<forall>imp \<in> set imps. impr_news imp \<noteq> []
               \<and> length (impr_label imp) = length (impr_news imp)"
    and rowwise: "\<forall>b \<in> set (load_data_from_file (test_iterator m) nf bf).
        scorer_predict_on_batch (net m) (weights st) (batch_input b) = map score (batch_input b)"
  shows "run_slow_eval m st nf bf =
     Inr (sort (map impr_key imps),
          map (\<lambda>k. map (fst \<circ> snd) (filter (\<lambda>r. snd (snd r) = k) (pair_rows feature imps)))
            (sort (map impr_key imps)),
          map (\<lambda>k. map (score \<circ> fst) (filter (\<lambda>r. snd (snd r) = k) (pair_rows feature imps)))
            (sort (map impr_key imps)))"
proof -
  let ?bs = "load_data_from_file (test_iterator m) nf bf"
  let ?rows = "pair_rows feature imps"
  have "concat (map (\<lambda>b. scorer_predict_on_batch (net m) (weights st) (batch_input b)) ?bs) =
      concat (map (\<lambda>b. map score (batch_input b)) ?bs)"
    using rowwise by (intro arg_cong [of _ _ concat] map_cong) simp_all
  also have "\<dots> = map score (concat (map batch_input ?bs))"
    by (simp add: map_concat o_def)
  also have "\<dots> = map (score \<circ> fst) ?rows"
    using data by (simp add: same_dataset_def)
  finally have preds: "concat (map (\<lambda>b. scorer_predict_on_batch (net m) (weights st)
      (batch_input b)) ?bs) = map (score \<circ> fst) ?rows" .
  have labels: "concat (map batch_label ?bs) = map (fst \<circ> snd) ?rows"
    and idx: "concat (map impression_index_batch ?bs) = map (snd \<circ> snd) ?rows"
    using data by (simp_all add: same_dataset_def)
  have run: "run_slow_eval m st nf bf =
      group_labels (map (fst \<circ> snd) ?rows) (map (score \<circ> fst) ?rows) (map (snd \<circ> snd) ?rows)"
    by (simp add: run_slow_eval_def run_slow_eval_loop_result preds labels idx)
  have ks: "sort (remdups (map (snd \<circ> snd) ?rows)) = sort (map impr_key imps)"
    by (rule sort_remdups_eq [OF keys_pair_rows [OF wf] keys])
  have bl: "bucket (map (fst \<circ> snd) ?rows) (map (snd \<circ> snd) ?rows) =
      (\<lambda>k. map (fst \<circ> snd) (filter (\<lambda>r. snd (snd r) = k) ?rows))"
    by (rule ext) (simp add: bucket_map)
  have bp: "bucket (map (score \<circ> fst) ?rows) (map (snd \<circ> snd) ?rows) =
      (\<lambda>k. map (score \<circ> fst) (filter (\<lambda>r. snd (snd r) = k) ?rows))"
    by (rule ext) (simp add: bucket_map)
  show ?thesis
    unfolding run
    by (subst group_labels_eq) (simp_all only: length_map ks bl bp)
qed


text \<open>
  Claim C1, as amended. Take a dataset seen by both evaluations: the data stream holds one row per
  impression and candidate of the impression stream (\<open>same_dataset\<close>), impression
  indexes identify impressions (they are distinct), every impression has as many labels
  as candidates and can be scored from the caches. Take a scorer that scores every row
  of a batch by \<open>score\<close>, where \<open>score\<close> of the row of a candidate and an impression is
  the dot product of the cached news vector and the cached user vector. Then both
  \<open>run_fast_eval\<close> and \<open>run_slow_eval\<close> return, and they return the same groups
  (impression key, label list, prediction list): the same multiset, hence the same set,
  and the same lists when the impression stream is in ascending key order. Hence
  \<open>run_eval\<close> computes the same metric values with quick scoring on and off, when
  the stream is in ascending key order or the metric computation does not depend on the
  order of the groups.
\<close>

theorem fast_slow_equivalence:
  assumes nv: "run_news m st nf = Inr nv" and uv: "run_user m st nf bf = Inr uv"
    and imps: "imps = load_impression_from_file (test_iterator m) bf"
    and bs: "bs = load_data_from_file (test_iterator m) nf bf"
    and data: "same_dataset feature bs imps"
    and keys: "distinct (map impr_key imps)"
    and wf: "\<forall>imp \<in> set imps. scorable nv uv imp
               \<and> length (impr_label imp) = length (impr_news imp)"
    and scorer: "dot_scorer m st score feature nv uv bs imps"
  shows "\<exists>fk fl fp st' sk sl sp.
        run_fast_eval m st nf bf = Inr ((fk, fl, fp), st')
      \<and> run_slow_eval m st nf bf = Inr (sk, sl, sp)
      \<and> length fl = length fk \<and> length fp = length fk
      \<and> length sl = length sk \<and> length sp = length sk
      \<and> mset (zip fk (zip fl fp)) = mset (zip sk (zip sl sp))
      \<and> set (zip fk (zip fl fp)) = set (zip sk (zip sl sp))
      \<and> (sorted (map impr_key imps) \<longrightarrow> (fk, fl, fp) = (sk, sl, sp))
      \<and> (sorted (map impr_key imps) \<or> order_invariant (cal_metric m) \<longrightarrow>
            map_sum id fst (run_eval (with_quick_scoring True m) st nf bf) =
            map_sum id fst (run_eval (with_quick_scoring False m) st nf bf))"
proof -
  have rowwise: "\<forall>b \<in> set bs.
      scorer_predict_on_batch (net m) (weights st) (batch_input b) = map score (batch_input b)"
    and dot: "\<forall>imp \<in> set imps. \<forall>n \<in> set (impr_news imp).
      score (feature n (impr_key imp)) = dot (the (nv n)) (the (uv (impr_key imp)))"
    using scorer by (simp_all add: dot_scorer_def list_all_iff)
  let ?K = "map impr_key imps"
  let ?rows = "pair_rows feature imps"
  let ?BL = "\<lambda>k. map (fst \<circ> snd) (filter (\<lambda>r. snd (snd r) = k) ?rows)"
  let ?BP = "\<lambda>k. map (score \<circ> fst) (filter (\<lambda>r. snd (snd r) = k) ?rows)"
  have wf': "\<forall>imp \<in> set imps. impr_news imp \<noteq> []
      \<and> length (impr_label imp) = length (impr_news imp)"
    using wf scorable_news by blast
  have slow: "run_slow_eval m st nf bf = Inr (sort ?K, map ?BL (sort ?K), map ?BP (sort ?K))"
    by (rule slow_groups [OF data [unfolded bs] keys wf' rowwise [unfolded bs]])
  have sc: "\<forall>imp \<in> set imps. scorable nv uv imp" using wf by blast
  have fast0: "run_fast_eval m st nf bf =
      Inr ((?K, map impr_label imps, map (dot_pred nv uv) imps),
           st\<lparr>news_vecs := nv, user_vecs := uv\<rparr>)"
    using nv uv run_fast_eval_loop_scorable [OF sc, of "[]" "[]" "[]"]
    by (simp add: run_fast_eval_def rbind_def imps)
  have bl: "impr_label imp = ?BL (impr_key imp)" if "imp \<in> set imps" for imp
    using that wf filter_pair_rows [OF keys that, of feature] labels_rows_of [of imp feature]
    by simp
  have bp: "dot_pred nv uv imp = ?BP (impr_key imp)" if "imp \<in> set imps" for imp
  proof -
    have "?BP (impr_key imp) = map (\<lambda>n. score (feature n (impr_key imp))) (impr_news imp)"
      using that wf filter_pair_rows [OF keys that, of feature]
        inputs_rows_of [of imp score feature]
      by simp
    also have "\<dots> = dot_pred nv uv imp"
      using dot that by (simp add: dot_pred_unfold)
    finally show ?thesis by simp
  qed
  have "map impr_label imps = map ?BL ?K" "map (dot_pred nv uv) imps = map ?BP ?K"
    using bl bp by (simp_all add: o_def)
  with fast0 have fast: "run_fast_eval m st nf bf =
      Inr ((?K, map ?BL ?K, map ?BP ?K), st\<lparr>news_vecs := nv, user_vecs := uv\<rparr>)"
    by simp
  have m3: "mset (zip ?K (zip (map ?BL ?K) (map ?BP ?K))) =
      mset (zip (sort ?K) (zip (map ?BL (sort ?K)) (map ?BP (sort ?K))))"
    unfolding zip3_map by (simp only: mset_map mset_sort)
  have s3: "set (zip ?K (zip (map ?BL ?K) (map ?BP ?K))) =
      set (zip (sort ?K) (zip (map ?BL (sort ?K)) (map ?BP (sort ?K))))"
    using arg_cong [OF m3, of set_mset] by (simp only: set_mset_mset)
  have m2: "mset (zip (map ?BL ?K) (map ?BP ?K)) =
      mset (zip (map ?BL (sort ?K)) (map ?BP (sort ?K)))"
    unfolding zip2_map by (simp only: mset_map mset_sort)
  have eq: "sort ?K = ?K" if "sorted ?K" using that by (simp add: sorted_sort_id)
  have metric: "map_sum id fst (run_eval (with_quick_scoring True m) st nf bf) =
      map_sum id fst (run_eval (with_quick_scoring False m) st nf bf)"
    if "sorted ?K \<or> order_invariant (cal_metric m)"
  proof -
    have "cal_metric m (map ?BL ?K) (map ?BP ?K) (metrics (hparams m)) =
        cal_metric m (map ?BL (sort ?K)) (map ?BP (sort ?K)) (metrics (hparams m))"
    proof (cases "sorted ?K")
      case True
      then show ?thesis by (simp only: eq)
    next
      case False
      with that have "order_invariant (cal_metric m)" by simp
      then show ?thesis
        unfolding order_invariant_def using m2 by (simp only: length_map simp_thms)
    qed
    then show ?thesis
      by (simp add: run_eval_quick fast slow rbind_def)
  qed
  show ?thesis
    apply (rule exI [of _ "?K"])
    apply (rule exI [of _ "map ?BL ?K"])
    apply (rule exI [of _ "map ?BP ?K"])
    apply (rule exI [of _ "st\<lparr>news_vecs := nv, user_vecs := uv\<rparr>"])
    apply (rule exI [of _ "sort ?K"])
    apply (rule exI [of _ "map ?BL (sort ?K)"])
    apply (rule exI [of _ "map ?BP (sort ?K)"])
    apply (intro conjI impI)
    subgoal by (rule fast)
    subgoal by (rule slow)
    subgoal by simp
    subgoal by simp
    subgoal by simp
    subgoal by simp
    subgoal by (rule m3)
    subgoal by (rule s3)
    subgoal by (simp only: eq)
    subgoal by (rule metric)
    done
qed


lemma two_impression_news:
  "run_news two_impression_model scenario_state [] = Inr (dict_of [(10, [1, 0]), (11, [0, 1])])"
  by (simp add: run_news_def news_def two_impression_model_def two_impression_iterator_def
      scenario_model_def scenario_network_def scenario_state_def)

lemma two_impression_user:
  "run_user two_impression_model scenario_state [] [] =
     Inr (dict_of [(0, [2, 3]), (1, [4, 5])])"
  by (simp add: run_user_def user_def two_impression_model_def two_impression_iterator_def
      scenario_model_def scenario_network_def scenario_state_def)

lemma two_impression_streams:
  "load_impression_from_file (test_iterator two_impression_model) [] =
     [(0, [10, 11], 0, [1, 0]), (1, [11], 1, [1])]"
  "load_data_from_file (test_iterator two_impression_model) [] [] =
     [\<lparr>impression_index_batch = [0, 0],
       batch_input = [([1, 0], [2, 3]), ([0, 1], [2, 3])],
       batch_label = [1, 0]\<rparr>,
      \<lparr>impression_index_batch = [1],
       batch_input = [([0, 1], [4, 5])],
       batch_label = [1]\<rparr>]"
  by (simp_all add: two_impression_model_def two_impression_iterator_def)

lemma two_impression_results:
  "map_sum id fst (run_fast_eval two_impression_model scenario_state [] []) =
     Inr ([0, 1], [[1, 0], [1]], [[2, 3], [5]])"
  "run_slow_eval two_impression_model scenario_state [] [] =
     Inr ([0, 1], [[1, 0], [1]], [[2, 3], [5]])"
  "map_sum id fst (run_eval (with_quick_scoring True two_impression_model) scenario_state [] []) =
     Inr [(''group_auc'', 9)]"
  by code_simp+

theorem fast_slow_equivalence_witness:
  "run_news two_impression_model scenario_state [] = Inr (dict_of [(10, [1, 0]), (11, [0, 1])])
   \<and> run_user two_impression_model scenario_state [] [] =
       Inr (dict_of [(0, [2, 3]), (1, [4, 5])])
   \<and> same_dataset two_impression_feature
        (load_data_from_file (test_iterator two_impression_model) [] [])
        (load_impression_from_file (test_iterator two_impression_model) [])
   \<and> dot_scorer two_impression_model scenario_state (\<lambda>(a, b). dot a b) two_impression_feature
        (dict_of [(10, [1, 0]), (11, [0, 1])]) (dict_of [(0, [2, 3]), (1, [4, 5])])
        (load_data_from_file (test_iterator two_impression_model) [] [])
        (load_impression_from_file (test_iterator two_impression_model) [])
   \<and> distinct (map impr_key (load_impression_from_file (test_iterator two_impression_model) []))
   \<and> sorted (map impr_key (load_impression_from_file (test_iterator two_impression_model) []))
   \<and> map_sum id fst (run_fast_eval two_impression_model scenario_state [] []) =
       Inr ([0, 1], [[1, 0], [1]], [[2, 3], [5]])
   \<and> run_slow_eval two_impression_model scenario_state [] [] =
       Inr ([0, 1], [[1, 0], [1]], [[2, 3], [5]])
   \<and> map_sum id fst (run_eval (with_quick_scoring True two_impression_model)
        scenario_state [] []) = Inr [(''group_auc'', 9)]
   \<and> map_sum id fst (run_eval (with_quick_scoring False two_impression_model)
        scenario_state [] []) = Inr [(''group_auc'', 9)]"
proof -
  let ?imps = "load_impression_from_file (test_iterator two_impression_model) []"
  let ?bs = "load_data_from_file (test_iterator two_impression_model) [] []"
  let ?nv = "dict_of [(10, [1, 0 :: real]), (11, [0, 1])]"
  let ?uv = "dict_of [(0, [2, 3 :: real]), (1, [4, 5])]"
  have data: "same_dataset two_impression_feature ?bs ?imps"
    unfolding two_impression_streams
    by (simp add: same_dataset_def pair_rows_def rows_of_def impr_key_def impr_news_def
        impr_label_def two_impression_feature_def dict_of_def)
  have keys: "distinct (map impr_key ?imps)" and srt: "sorted (map impr_key ?imps)"
    unfolding two_impression_streams by (simp_all add: impr_key_def)
  have wf: "\<forall>imp \<in> set ?imps. scorable ?nv ?uv imp
      \<and> length (impr_label imp) = length (impr_news imp)"
    unfolding two_impression_streams
    by (simp add: scorable_def impr_label_def impr_news_def dict_of_def)
  have scorer: "dot_scorer two_impression_model scenario_state (\<lambda>(a, b). dot a b)
      two_impression_feature ?nv ?uv ?bs ?imps"
    unfolding two_impression_streams
    by (simp add: dot_scorer_def two_impression_model_def scenario_model_def
        scenario_network_def two_impression_feature_def impr_news_def impr_key_def)
  from fast_slow_equivalence [OF two_impression_news two_impression_user refl refl data keys
      wf scorer] srt
  have "map_sum id fst (run_eval (with_quick_scoring True two_impression_model)
          scenario_state [] []) =
        map_sum id fst (run_eval (with_quick_scoring False two_impression_model)
          scenario_state [] [])"
    by blast
  with two_impression_results(3)
  have "map_sum id fst (run_eval (with_quick_scoring False two_impression_model)
          scenario_state [] []) = Inr [(''group_auc'', 9)]"
    by simp
  with two_impression_news two_impression_user data scorer keys srt two_impression_results
  show ?thesis by blast
qed

lemma variation_caches:
  "run_news repeated_key_model scenario_state [] = Inr (dict_of [(10, [1, 0]), (11, [0, 1])])"
  "run_user repeated_key_model scenario_state [] [] = Inr (dict_of [(0, [2, 3]), (1, [4, 5])])"
  "run_news no_candidate_model scenario_state [] = Inr (dict_of [(10, [1, 0]), (11, [0, 1])])"
  "run_user no_candidate_model scenario_state [] [] = Inr (dict_of [(0, [2, 3]), (1, [4, 5])])"
  "run_news descending_model scenario_state [] = Inr (dict_of [(10, [1, 0]), (11, [0, 1])])"
  "run_user descending_model scenario_state [] [] = Inr (dict_of [(0, [2, 3]), (1, [4, 5])])"
  by (simp_all add: run_news_def news_def run_user_def user_def repeated_key_model_def
      repeated_key_iterator_def no_candidate_model_def no_candidate_iterator_def
      descending_model_def descending_iterator_def two_impression_iterator_def
      scenario_model_def scenario_network_def scenario_state_def)

lemma repeated_key_differs:
  "same_dataset two_impression_feature
     (load_data_from_file (test_iterator repeated_key_model) [] [])
     (load_impression_from_file (test_iterator repeated_key_model) [])"
  "dot_scorer repeated_key_model scenario_state (\<lambda>(a, b). dot a b) two_impression_feature
     (dict_of [(10, [1, 0]), (11, [0, 1])]) (dict_of [(0, [2, 3]), (1, [4, 5])])
     (load_data_from_file (test_iterator repeated_key_model) [] [])
     (load_impression_from_file (test_iterator repeated_key_model) [])"
  "map_sum id fst (run_fast_eval repeated_key_model scenario_state [] []) =
     Inr ([0, 1, 0], [[1, 0], [1], [0]], [[2, 3], [5], [3]])"
  "run_slow_eval repeated_key_model scenario_state [] [] =
     Inr ([0, 1], [[1, 0, 0], [1]], [[2, 3, 3], [5]])"
  "map_sum id fst (run_eval (with_quick_scoring True repeated_key_model) scenario_state [] []) =
     Inr [(''group_auc'', 10)]"
  "map_sum id fst (run_eval (with_quick_scoring False repeated_key_model) scenario_state [] []) =
     Inr [(''group_auc'', 9)]"
  by code_simp+

lemma no_candidate_differs:
  "same_dataset two_impression_feature
     (load_data_from_file (test_iterator no_candidate_model) [] [])
     (load_impression_from_file (test_iterator no_candidate_model) [])"
  "dot_scorer no_candidate_model scenario_state (\<lambda>(a, b). dot a b) two_impression_feature
     (dict_of [(10, [1, 0]), (11, [0, 1])]) (dict_of [(0, [2, 3]), (1, [4, 5])])
     (load_data_from_file (test_iterator no_candidate_model) [] [])
     (load_impression_from_file (test_iterator no_candidate_model) [])"
  "map_sum id fst (run_fast_eval no_candidate_model scenario_state [] []) = Inl ValueError"
  "run_slow_eval no_candidate_model scenario_state [] [] = Inr ([0], [[1]], [[2]])"
  by code_simp+

lemma descending_differs:
  "same_dataset two_impression_feature
     (load_data_from_file (test_iterator descending_model) [] [])
     (load_impression_from_file (test_iterator descending_model) [])"
  "dot_scorer descending_model scenario_state (\<lambda>(a, b). dot a b) two_impression_feature
     (dict_of [(10, [1, 0]), (11, [0, 1])]) (dict_of [(0, [2, 3]), (1, [4, 5])])
     (load_data_from_file (test_iterator descending_model) [] [])
     (load_impression_from_file (test_iterator descending_model) [])"
  "map_sum id fst (run_fast_eval descending_model scenario_state [] []) =
     Inr ([1, 0], [[1], [1, 0]], [[5], [2, 3]])"
  "run_slow_eval descending_model scenario_state [] [] =
     Inr ([0, 1], [[1, 0], [1]], [[2, 3], [5]])"
  "map_sum id fst (run_eval (with_quick_scoring True descending_model) scenario_state [] []) =
     Inr [(''group_auc'', 5)]"
  "map_sum id fst (run_eval (with_quick_scoring False descending_model) scenario_state [] []) =
     Inr [(''group_auc'', 2)]"
  by code_simp+

text \<open>
  Claim C1 as stated fails on three datasets that both evaluations see the same and
  that a dot-product scorer scores. With a repeated impression index fast evaluation
  returns three groups and slow evaluation two, and the metric values are 10 and 9.
  With an impression that has no candidate fast evaluation raises \<^verbatim>\<open>ValueError\<close> and
  slow evaluation returns. With distinct indexes in descending order the groups are the
  same set in another order, and a metric computation that depends on the order gives 5
  and 2.
\<close>

theorem fast_slow_differ_counterexample:
  "(same_dataset two_impression_feature
      (load_data_from_file (test_iterator repeated_key_model) [] [])
      (load_impression_from_file (test_iterator repeated_key_model) [])
    \<and> run_news repeated_key_model scenario_state [] =
        Inr (dict_of [(10, [1, 0]), (11, [0, 1])])
    \<and> run_user repeated_key_model scenario_state [] [] =
        Inr (dict_of [(0, [2, 3]), (1, [4, 5])])
    \<and> dot_scorer repeated_key_model scenario_state (\<lambda>(a, b). dot a b) two_impression_feature
        (dict_of [(10, [1, 0]), (11, [0, 1])]) (dict_of [(0, [2, 3]), (1, [4, 5])])
        (load_data_from_file (test_iterator repeated_key_model) [] [])
        (load_impression_from_file (test_iterator repeated_key_model) [])
    \<and> map_sum id fst (run_fast_eval repeated_key_model scenario_state [] []) =
        Inr ([0, 1, 0], [[1, 0], [1], [0]], [[2, 3], [5], [3]])
    \<and> run_slow_eval repeated_key_model scenario_state [] [] =
        Inr ([0, 1], [[1, 0, 0], [1]], [[2, 3, 3], [5]])
    \<and> map_sum id fst (run_eval (with_quick_scoring True repeated_key_model)
         scenario_state [] []) = Inr [(''group_auc'', 10)]
    \<and> map_sum id fst (run_eval (with_quick_scoring False repeated_key_model)
         scenario_state [] []) = Inr [(''group_auc'', 9)])
   \<and> (same_dataset two_impression_feature
      (load_data_from_file (test_iterator no_candidate_model) [] [])
      (load_impression_from_file (test_iterator no_candidate_model) [])
    \<and> run_news no_candidate_model scenario_state [] =
        Inr (dict_of [(10, [1, 0]), (11, [0, 1])])
    \<and> run_user no_candidate_model scenario_state [] [] =
        Inr (dict_of [(0, [2, 3]), (1, [4, 5])])
    \<and> dot_scorer no_candidate_model scenario_state (\<lambda>(a, b). dot a b) two_impression_feature
        (dict_of [(10, [1, 0]), (11, [0, 1])]) (dict_of [(0, [2, 3]), (1, [4, 5])])
        (load_data_from_file (test_iterator no_candidate_model) [] [])
        (load_impression_from_file (test_iterator no_candidate_model) [])
    \<and> map_sum id fst (run_fast_eval no_candidate_model scenario_state [] []) = Inl ValueError
    \<and> run_slow_eval no_candidate_model scenario_state [] [] = Inr ([0], [[1]], [[2]]))
   \<and> (same_dataset two_impression_feature
      (load_data_from_file (test_iterator descending_model) [] [])
      (load_impression_from_file (test_iterator descending_model) [])
    \<and> run_news descending_model scenario_state [] =
        Inr (dict_of [(10, [1, 0]), (11, [0, 1])])
    \<and> run_user descending_model scenario_state [] [] =
        Inr (dict_of [(0, [2, 3]), (1, [4, 5])])
    \<and> dot_scorer descending_model scenario_state (\<lambda>(a, b). dot a b) two_impression_feature
        (dict_of [(10, [1, 0]), (11, [0, 1])]) (dict_of [(0, [2, 3]), (1, [4, 5])])
        (load_data_from_file (test_iterator descending_model) [] [])
        (load_impression_from_file (test_iterator descending_model) [])
    \<and> map_sum id fst (run_fast_eval descending_model scenario_state [] []) =
        Inr ([1, 0], [[1], [1, 0]], [[5], [2, 3]])
    \<and> run_slow_eval descending_model scenario_state [] [] =
        Inr ([0, 1], [[1, 0], [1]], [[2, 3], [5]])
    \<and> map_sum id fst (run_eval (with_quick_scoring True descending_model)
         scenario_state [] []) = Inr [(''group_auc'', 5)]
    \<and> map_sum id fst (run_eval (with_quick_scoring False descending_model)
         scenario_state [] []) = Inr [(''group_auc'', 2)])"
  using variation_caches repeated_key_differs no_candidate_differs descending_differs
  by (intro conjI) assumption+

end
